theory Spec2Isabelle
  imports Main "HOL-Library.Word"
begin

unbundle bit_operations_syntax

section \<open>Bytes, strings and JavaScript exceptions\<close>

text \<open>
  A \<open>Uint8Array\<close> is a list of 8-bit words. A JavaScript string is a list of
  characters. A \<open>BigInt\<close> that is built from zero by multiplication and addition of
  non-negative values is a natural number.

  A thrown exception is a value: its class and its message. \<open>NonError\<close> stands for a
  thrown value that is not an instance of \<open>Error\<close>.
\<close>

type_synonym byte = "8 word"
type_synonym bytes = "byte list"

datatype js_error =
    Error string
  | TypeError string
  | DecryptionError string
  | NonError

section \<open>did.ts: base58btc\<close>

definition BASE58_ALPHABET :: string where
  "BASE58_ALPHABET = ''123456789ABCDEFGHJKLMNPQRSTUVWXYZabcdefghijkmnopqrstuvwxyz''"

text \<open>The first loop of \<open>base58Encode\<close>: \<open>num = num * 256 + byte\<close> over the data.\<close>

definition bytes_to_bigint :: "bytes \<Rightarrow> nat" where
  "bytes_to_bigint data = foldl (\<lambda>num byte. num * 256 + unat byte) 0 data"

text \<open>The \<open>while (num > 0)\<close> loop: push the digit of \<open>num % 58\<close>, divide by 58.\<close>

function push_digits :: "nat \<Rightarrow> string \<Rightarrow> string" where
  "push_digits num result =
     (if num > 0
      then push_digits (num div 58) (result @ [BASE58_ALPHABET ! (num mod 58)])
      else result)"
  by pat_completeness auto
termination
  by (relation "measure (\<lambda>(num, result). num)") auto

declare push_digits.simps [simp del]

text \<open>The second loop over the data: one alphabet-zero character per leading zero
  byte, until the first non-zero byte (\<open>break\<close>).\<close>

fun push_leading_zeros :: "bytes \<Rightarrow> string \<Rightarrow> string" where
  "push_leading_zeros [] result = result"
| "push_leading_zeros (byte # rest) result =
     (if byte = 0 then push_leading_zeros rest (result @ [BASE58_ALPHABET ! 0])
      else result)"

definition base58Encode :: "bytes \<Rightarrow> string" where
  "base58Encode data =
     (let num = bytes_to_bigint data in
      if num = 0 then [BASE58_ALPHABET ! 0]
      else rev (push_leading_zeros data (push_digits num [])))"

text \<open>\<open>String.prototype.indexOf\<close> for a single character; \<open>None\<close> is the result -1.\<close>

fun indexOf :: "string \<Rightarrow> char \<Rightarrow> nat option" where
  "indexOf [] c = None"
| "indexOf (x # xs) c = (if x = c then Some 0 else map_option Suc (indexOf xs c))"

text \<open>The first loop of \<open>base58Decode\<close>; it throws at the first character that is not
  in the alphabet.\<close>

fun decode_digits :: "nat \<Rightarrow> string \<Rightarrow> js_error + nat" where
  "decode_digits num [] = Inr num"
| "decode_digits num (char # rest) =
     (case indexOf BASE58_ALPHABET char of
        None \<Rightarrow> Inl (Error (''Invalid base58 character: '' @ [char]))
      | Some index \<Rightarrow> decode_digits (num * 58 + index) rest)"

text \<open>The second loop: count the leading alphabet-zero characters.\<close>

fun count_leading_ones :: "string \<Rightarrow> nat \<Rightarrow> nat" where
  "count_leading_ones [] leadingZeros = leadingZeros"
| "count_leading_ones (char # rest) leadingZeros =
     (if char = BASE58_ALPHABET ! 0 then count_leading_ones rest (Suc leadingZeros)
      else leadingZeros)"

text \<open>\<open>num.toString(16)\<close>: the hexadecimal digits, most significant first, no leading
  zero; zero is \<open>"0"\<close>.\<close>

definition hex_digit :: "nat \<Rightarrow> char" where
  "hex_digit d = ''0123456789abcdef'' ! d"

function toString16 :: "nat \<Rightarrow> string" where
  "toString16 num =
     (if num < 16 then [hex_digit num]
      else toString16 (num div 16) @ [hex_digit (num mod 16)])"
  by pat_completeness auto
termination
  by (relation "measure (\<lambda>num. num)") auto

declare toString16.simps [simp del]

text \<open>The last loop: \<open>bytes[leadingZeros + byteLength - 1 - i] = (num >> i*8) & 0xff\<close>
  for \<open>i\<close> from 0 below \<open>byteLength\<close>, on a zero-filled array. Every index written is
  inside the array.\<close>

definition write_bytes :: "nat \<Rightarrow> nat \<Rightarrow> nat \<Rightarrow> bytes" where
  "write_bytes num leadingZeros byteLength =
     fold (\<lambda>i bytes. bytes[leadingZeros + byteLength - 1 - i :=
                             of_nat (drop_bit (i * 8) num AND 255)])
          [0..<byteLength]
          (replicate (leadingZeros + byteLength) 0)"

definition base58Decode :: "string \<Rightarrow> js_error + bytes" where
  "base58Decode encoded =
     (if encoded = [] then Inr []
      else case decode_digits 0 encoded of
        Inl e \<Rightarrow> Inl e
      | Inr num \<Rightarrow>
          let leadingZeros = count_leading_ones encoded 0 in
          if num = 0 then Inr (replicate leadingZeros 0)
          else
            let hex = toString16 num;
                byteLength = (length hex + 1) div 2
            in Inr (write_bytes num leadingZeros byteLength))"

section \<open>did.ts: did:key identifiers\<close>

definition ED25519_MULTICODEC_PREFIX :: bytes where
  "ED25519_MULTICODEC_PREFIX = [0xed, 0x01]"

definition publicKeyToDid :: "bytes \<Rightarrow> js_error + string" where
  "publicKeyToDid publicKey =
     (if length publicKey \<noteq> 32 then Inl (Error ''Ed25519 public key must be 32 bytes'')
      else
        let multicodecKey = ED25519_MULTICODEC_PREFIX @ publicKey;
            encoded = base58Encode multicodecKey
        in Inr (''did:key:z'' @ encoded))"

text \<open>\<open>s.startsWith(p)\<close>, and an indexed read that is \<open>undefined\<close> (here \<open>None\<close>)
  outside the array.\<close>

definition startsWith :: "string \<Rightarrow> string \<Rightarrow> bool" where
  "startsWith s p = (take (length p) s = p)"

definition at_index :: "bytes \<Rightarrow> nat \<Rightarrow> byte option" where
  "at_index a i = (if i < length a then Some (a ! i) else None)"

text \<open>The three errors that \<open>didToPublicKey\<close> throws itself, under the names the
  specification gives them. Each is a plain \<open>Error\<close> with the message of the source.\<close>

definition InvalidDidFormat :: js_error where
  "InvalidDidFormat =
     Error (''Invalid did:key format - must start with '' @ [CHR 0x27] @ ''did:key:z'' @ [CHR 0x27])"

definition InvalidMulticodecPrefix :: js_error where
  "InvalidMulticodecPrefix = Error ''Invalid multicodec prefix - expected Ed25519''"

definition InvalidKeyLength :: js_error where
  "InvalidKeyLength = Error ''Invalid public key length''"

definition didToPublicKey :: "string \<Rightarrow> js_error + bytes" where
  "didToPublicKey did =
     (if \<not> startsWith did ''did:key:z'' then Inl InvalidDidFormat
      else
        let encoded = drop 9 did in
        case base58Decode encoded of
          Inl e \<Rightarrow> Inl e
        | Inr decoded \<Rightarrow>
            if at_index decoded 0 \<noteq> at_index ED25519_MULTICODEC_PREFIX 0 \<or>
               at_index decoded 1 \<noteq> at_index ED25519_MULTICODEC_PREFIX 1
            then Inl InvalidMulticodecPrefix
            else
              let publicKey = drop 2 decoded in
              if length publicKey \<noteq> 32 then Inl InvalidKeyLength
              else Inr publicKey)"

section \<open>The tweetnacl and tweetnacl-util interface\<close>

text \<open>
  The cryptographic primitives are imported from the \<open>tweetnacl\<close> and
  \<open>tweetnacl-util\<close> packages. The functions of this repository are modelled over an
  arbitrary implementation of the interface they call: each library function is a field
  of the record below and returns either a thrown exception or its result (\<open>null\<close>
  is \<open>None\<close>). What the library guarantees is stated separately, as contracts, and a
  theorem names the contracts it needs.

  \<open>nacl.randomBytes(n)\<close> reads \<open>n\<close> bytes from a source of entropy, which is
  passed explicitly and returned advanced.
\<close>

type_synonym entropy = "nat \<Rightarrow> byte"

definition randomBytes :: "nat \<Rightarrow> entropy \<Rightarrow> bytes \<times> entropy" where
  "randomBytes n rnd = (map rnd [0..<n], \<lambda>i. rnd (i + n))"

record tweetnacl =
  nacl_secretbox :: "bytes \<Rightarrow> bytes \<Rightarrow> bytes \<Rightarrow> js_error + bytes"
  nacl_secretbox_open :: "bytes \<Rightarrow> bytes \<Rightarrow> bytes \<Rightarrow> js_error + bytes option"
  nacl_sign :: "bytes \<Rightarrow> bytes \<Rightarrow> js_error + bytes"
  nacl_sign_open :: "bytes \<Rightarrow> bytes \<Rightarrow> js_error + bytes option"
  nacl_sign_keyPair :: "entropy \<Rightarrow> (bytes \<times> bytes) \<times> entropy"
  encodeBase64 :: "bytes \<Rightarrow> string"
  decodeBase64 :: "string \<Rightarrow> js_error + bytes"

text \<open>\<open>nacl.sign.keyPair()\<close> returns \<open>(secretKey, publicKey)\<close>. The lengths
  \<open>nacl.secretbox.keyLength\<close>, \<open>nacl.secretbox.nonceLength\<close> and
  \<open>nacl.sign.signatureLength\<close> are constants of the library.\<close>

definition keyLength :: nat where "keyLength = 32"
definition nonceLength :: nat where "nonceLength = 24"
definition signatureLength :: nat where "signatureLength = 64"

text \<open>\<open>new TextEncoder().encode(s)\<close>: UTF-8, for code points below 256.\<close>

definition TextEncoder_encode :: "string \<Rightarrow> bytes" where
  "TextEncoder_encode s =
     concat (map (\<lambda>c. let n = (of_char c :: nat) in
                       if n < 128 then [of_nat n]
                       else [of_nat (192 + n div 64), of_nat (128 + n mod 64)]) s)"

section \<open>did.ts: key pairs and signatures\<close>

record KeyPair =
  signingKey :: bytes
  verifyKey :: bytes

definition generateKeyPair :: "tweetnacl \<Rightarrow> entropy \<Rightarrow> KeyPair \<times> entropy" where
  "generateKeyPair lib rnd =
     (let ((secretKey, publicKey), rnd') = nacl_sign_keyPair lib rnd
      in (\<lparr>signingKey = secretKey, verifyKey = publicKey\<rparr>, rnd'))"

definition signMessage :: "tweetnacl \<Rightarrow> bytes \<Rightarrow> bytes \<Rightarrow> js_error + bytes" where
  "signMessage lib message signingKey' =
     (case nacl_sign lib message signingKey' of
        Inl e \<Rightarrow> Inl e
      | Inr signedMessage \<Rightarrow> Inr (take signatureLength signedMessage))"

definition verifySignature :: "tweetnacl \<Rightarrow> bytes \<Rightarrow> bytes \<Rightarrow> bytes \<Rightarrow> js_error + bool" where
  "verifySignature lib message signature publicKey =
     (let signedMessage = signature @ message in
      case nacl_sign_open lib signedMessage publicKey of
        Inl e \<Rightarrow> Inl e
      | Inr result \<Rightarrow> Inr (result \<noteq> None))"

text \<open>The message of the base64 variants is a string or a byte array.\<close>

datatype message = Text string | Bytes bytes

fun messageBytes :: "message \<Rightarrow> bytes" where
  "messageBytes (Text s) = TextEncoder_encode s"
| "messageBytes (Bytes b) = b"

definition signMessageBase64 :: "tweetnacl \<Rightarrow> message \<Rightarrow> bytes \<Rightarrow> js_error + string" where
  "signMessageBase64 lib message signingKey' =
     (case signMessage lib (messageBytes message) signingKey' of
        Inl e \<Rightarrow> Inl e
      | Inr signature \<Rightarrow> Inr (encodeBase64 lib signature))"

text \<open>The body of the \<open>try\<close> block, and the function with its \<open>catch\<close>, which
  returns \<open>false\<close> for every exception.\<close>

definition verifySignatureBase64_try :: "tweetnacl \<Rightarrow> message \<Rightarrow> string \<Rightarrow> bytes \<Rightarrow> js_error + bool" where
  "verifySignatureBase64_try lib message signatureB64 publicKey =
     (case decodeBase64 lib signatureB64 of
        Inl e \<Rightarrow> Inl e
      | Inr signature \<Rightarrow> verifySignature lib (messageBytes message) signature publicKey)"

definition verifySignatureBase64 :: "tweetnacl \<Rightarrow> message \<Rightarrow> string \<Rightarrow> bytes \<Rightarrow> js_error + bool" where
  "verifySignatureBase64 lib message signatureB64 publicKey =
     (case verifySignatureBase64_try lib message signatureB64 publicKey of
        Inl e \<Rightarrow> Inr False
      | Inr b \<Rightarrow> Inr b)"


section \<open>encrypt.ts\<close>

definition SCHEME_SECRETBOX :: string where
  "SCHEME_SECRETBOX = ''XSalsa20-Poly1305''"

text \<open>\<open>decryptSymmetric\<close> reads the fields \<open>ciphertext\<close> and \<open>nonce\<close> of an
  \<open>EncryptedPayload\<close>; the optional \<open>keyWrap\<close> belongs to the asymmetric scheme.\<close>

record EncryptedPayload =
  payload_ciphertext :: string
  payload_nonce :: string
  payload_scheme :: string

record KeyWrap =
  algorithm :: string
  wrapped_key :: string
  wrap_nonce :: string

record VaultEncryptionMeta =
  scheme :: string
  nonce :: string
  key_wrap :: KeyWrap

definition generateKey :: "entropy \<Rightarrow> bytes \<times> entropy" where
  "generateKey rnd = randomBytes keyLength rnd"

definition generateNonce :: "entropy \<Rightarrow> bytes \<times> entropy" where
  "generateNonce rnd = randomBytes nonceLength rnd"

text \<open>\<open>e instanceof Error\<close> and \<open>e.message\<close>; \<open>TypeError\<close> and
  \<open>DecryptionError\<close> extend \<open>Error\<close>.\<close>

fun instanceof_Error :: "js_error \<Rightarrow> bool" where
  "instanceof_Error NonError = False"
| "instanceof_Error e = True"

fun instanceof_DecryptionError :: "js_error \<Rightarrow> bool" where
  "instanceof_DecryptionError (DecryptionError m) = True"
| "instanceof_DecryptionError e = False"

fun error_message :: "js_error \<Rightarrow> string" where
  "error_message (Error m) = m"
| "error_message (TypeError m) = m"
| "error_message (DecryptionError m) = m"
| "error_message NonError = []"

text \<open>The body of the \<open>try\<close> block of \<open>decryptSymmetric\<close>, and the function with
  its \<open>catch\<close>: a \<open>DecryptionError\<close> is thrown again as it is, every other
  exception is wrapped in a new \<open>DecryptionError\<close>.\<close>

definition decryptSymmetric_try :: "tweetnacl \<Rightarrow> EncryptedPayload \<Rightarrow> bytes \<Rightarrow> js_error + bytes" where
  "decryptSymmetric_try lib payload key =
     (case decodeBase64 lib (payload_ciphertext payload) of
        Inl e \<Rightarrow> Inl e
      | Inr ciphertext \<Rightarrow>
     (case decodeBase64 lib (payload_nonce payload) of
        Inl e \<Rightarrow> Inl e
      | Inr nonce' \<Rightarrow>
     (case nacl_secretbox_open lib ciphertext nonce' key of
        Inl e \<Rightarrow> Inl e
      | Inr None \<Rightarrow>
          Inl (DecryptionError ''Decryption failed: incorrect key or corrupted data'')
      | Inr (Some decrypted) \<Rightarrow> Inr decrypted)))"

definition decryptSymmetric :: "tweetnacl \<Rightarrow> EncryptedPayload \<Rightarrow> bytes \<Rightarrow> js_error + bytes" where
  "decryptSymmetric lib payload key =
     (case decryptSymmetric_try lib payload key of
        Inr decrypted \<Rightarrow> Inr decrypted
      | Inl error \<Rightarrow>
          if instanceof_DecryptionError error then Inl error
          else Inl (DecryptionError (''Decryption error: '' @
                 (if instanceof_Error error then error_message error
                  else ''Unknown error''))))"

record VaultEncrypted =
  encryptedBlob :: bytes
  encryptionMeta :: VaultEncryptionMeta

definition encryptForVault :: "tweetnacl \<Rightarrow> bytes \<Rightarrow> bytes \<Rightarrow> entropy \<Rightarrow> js_error + VaultEncrypted \<times> entropy" where
  "encryptForVault lib plaintext documentKey rnd =
     (let (dek, rnd1) = generateKey rnd;
          (documentNonce, rnd2) = generateNonce rnd1
      in case nacl_secretbox lib plaintext documentNonce dek of
        Inl e \<Rightarrow> Inl e
      | Inr ciphertext \<Rightarrow>
          let (dekNonce, rnd3) = generateNonce rnd2
          in case nacl_secretbox lib dek dekNonce documentKey of
            Inl e \<Rightarrow> Inl e
          | Inr wrappedDek \<Rightarrow>
              Inr (\<lparr>encryptedBlob = ciphertext,
                    encryptionMeta =
                      \<lparr>scheme = SCHEME_SECRETBOX,
                       nonce = encodeBase64 lib documentNonce,
                       key_wrap =
                         \<lparr>algorithm = ''XSalsa20-Poly1305'',
                          wrapped_key = encodeBase64 lib wrappedDek,
                          wrap_nonce = encodeBase64 lib dekNonce\<rparr>\<rparr>\<rparr>,
                   rnd3))"

definition decryptFromVault :: "tweetnacl \<Rightarrow> bytes \<Rightarrow> VaultEncryptionMeta \<Rightarrow> bytes \<Rightarrow> js_error + bytes" where
  "decryptFromVault lib blob meta documentKey =
     (case decodeBase64 lib (wrapped_key (key_wrap meta)) of
        Inl e \<Rightarrow> Inl e
      | Inr wrappedDek \<Rightarrow>
     (case decodeBase64 lib (wrap_nonce (key_wrap meta)) of
        Inl e \<Rightarrow> Inl e
      | Inr wrapNonce \<Rightarrow>
     (case nacl_secretbox_open lib wrappedDek wrapNonce documentKey of
        Inl e \<Rightarrow> Inl e
      | Inr None \<Rightarrow> Inl (Error ''Failed to unwrap document encryption key'')
      | Inr (Some dek) \<Rightarrow>
     (case decodeBase64 lib (nonce meta) of
        Inl e \<Rightarrow> Inl e
      | Inr documentNonce \<Rightarrow>
     (case nacl_secretbox_open lib blob documentNonce dek of
        Inl e \<Rightarrow> Inl e
      | Inr None \<Rightarrow> Inl (Error ''Failed to decrypt document'')
      | Inr (Some decrypted) \<Rightarrow> Inr decrypted)))))"

section \<open>app/dashboard/recovery/page.tsx: the owner signature of a new role\<close>

datatype RoleType = primary_owner | beneficiary | verifier | guardian

text \<open>A \<open>RoleType\<close> is the string of its name.\<close>

fun RoleType_string :: "RoleType \<Rightarrow> string" where
  "RoleType_string primary_owner = ''primary_owner''"
| "RoleType_string beneficiary = ''beneficiary''"
| "RoleType_string verifier = ''verifier''"
| "RoleType_string guardian = ''guardian''"

text \<open>The fields of \<open>CitizenResponse\<close> and \<open>RecoveryRoleCreate\<close> that
  \<open>handleAddRole\<close> reads and writes.\<close>

record CitizenResponse =
  account_id :: string
  did :: string

record RecoveryRoleCreate =
  target_id :: string
  role_type :: RoleType
  owner_signature :: string

text \<open>The string that \<open>handleAddRole\<close> hashes.\<close>

definition signatureData :: "RoleType \<Rightarrow> CitizenResponse \<Rightarrow> string \<Rightarrow> string" where
  "signatureData newRoleType targetAccount timestamp =
     ''role:'' @ RoleType_string newRoleType @ '':target:'' @ account_id targetAccount @
     '':time:'' @ timestamp"

text \<open>
  The request that \<open>handleAddRole\<close> sends to \<open>api.recovery.createRole\<close>, given
  the account found for the target DID and the current time. \<open>sha256\<close> is
  \<open>crypto.subtle.digest('SHA-256', _)\<close> and \<open>btoa\<close> is
  \<open>btoa(String.fromCharCode(...bytes))\<close>, both of the browser.
\<close>

definition handleAddRole_request ::
  "(bytes \<Rightarrow> bytes) \<Rightarrow> (bytes \<Rightarrow> string) \<Rightarrow> RoleType \<Rightarrow> CitizenResponse \<Rightarrow> string \<Rightarrow> RecoveryRoleCreate" where
  "handleAddRole_request sha256 btoa newRoleType targetAccount timestamp =
     (let data = TextEncoder_encode (signatureData newRoleType targetAccount timestamp);
          hashArray = sha256 data;
          ownerSignature = btoa hashArray
      in \<lparr>target_id = account_id targetAccount,
          role_type = newRoleType,
          owner_signature = ownerSignature\<rparr>)"

text \<open>The canonical payload of a role creation, as the specification gives it:
  \<open>role:{roleType}:target:{targetDid}:time:{timestamp}\<close>.\<close>

definition canonical_role_payload :: "RoleType \<Rightarrow> string \<Rightarrow> string \<Rightarrow> string" where
  "canonical_role_payload roleType targetDid timestamp =
     ''role:'' @ RoleType_string roleType @ '':target:'' @ targetDid @ '':time:'' @ timestamp"

section \<open>Contracts of the library\<close>

text \<open>
  \<open>secretbox_correct\<close>: with a 32-byte key and a 24-byte nonce, \<open>nacl.secretbox\<close>
  returns a box that \<open>nacl.secretbox.open\<close> opens, under the same nonce and key, to
  the message. \<open>base64_correct\<close>: \<open>decodeBase64\<close> inverts \<open>encodeBase64\<close>.
  \<open>sign_correct\<close>: for a key pair of \<open>nacl.sign.keyPair\<close>, \<open>nacl.sign\<close> returns a
  64-byte signature followed by the message, and \<open>nacl.sign.open\<close> accepts it under
  the public key.
\<close>

definition secretbox_correct :: "tweetnacl \<Rightarrow> bool" where
  "secretbox_correct lib =
     (\<forall>msg nonce' key. length key = 32 \<and> length nonce' = 24 \<longrightarrow>
        (\<exists>box. nacl_secretbox lib msg nonce' key = Inr box \<and>
               nacl_secretbox_open lib box nonce' key = Inr (Some msg)))"

definition base64_correct :: "tweetnacl \<Rightarrow> bool" where
  "base64_correct lib = (\<forall>b. decodeBase64 lib (encodeBase64 lib b) = Inr b)"

definition sign_correct :: "tweetnacl \<Rightarrow> bool" where
  "sign_correct lib =
     (\<forall>rnd msg. \<exists>sig.
        length sig = 64 \<and>
        nacl_sign lib msg (fst (fst (nacl_sign_keyPair lib rnd))) = Inr (sig @ msg) \<and>
        nacl_sign_open lib (sig @ msg) (snd (fst (nacl_sign_keyPair lib rnd))) = Inr (Some msg))"




section \<open>An executable instance of the interface\<close>

text \<open>
  \<open>sample_nacl\<close> is a small implementation of the interface. It keeps the argument
  checks of tweetnacl (a key of 32 bytes, a nonce of 24, a secret signing key of 64, a
  public key of 32, each with the library's error message), its sizes (a box is the
  message and 16 bytes of authenticator, a signed message is 64 bytes of signature and
  the message) and the base64 of tweetnacl-util (RFC 4648 with padding, \<open>TypeError\<close>
  on malformed text). The cipher and the signature themselves are replaced by byte
  arithmetic that is invertible but has no cryptographic strength. The instance shows
  that the contracts can be met and lets the functions of the repository run on
  concrete inputs.
\<close>

definition BASE64_ALPHABET :: string where
  "BASE64_ALPHABET = ''ABCDEFGHIJKLMNOPQRSTUVWXYZabcdefghijklmnopqrstuvwxyz0123456789+/''"

text \<open>Three bytes are four 6-bit values; a missing byte counts as zero.\<close>

definition sextet1 :: "byte \<Rightarrow> nat" where
  "sextet1 a = unat a div 4"

definition sextet2 :: "byte \<Rightarrow> byte \<Rightarrow> nat" where
  "sextet2 a b = unat a mod 4 * 16 + unat b div 16"

definition sextet3 :: "byte \<Rightarrow> byte \<Rightarrow> nat" where
  "sextet3 b c = unat b mod 16 * 4 + unat c div 64"

definition sextet4 :: "byte \<Rightarrow> nat" where
  "sextet4 c = unat c mod 64"

definition octet1 :: "nat \<Rightarrow> nat \<Rightarrow> byte" where
  "octet1 v1 v2 = of_nat (v1 * 4 + v2 div 16)"

definition octet2 :: "nat \<Rightarrow> nat \<Rightarrow> byte" where
  "octet2 v2 v3 = of_nat (v2 mod 16 * 16 + v3 div 4)"

definition octet3 :: "nat \<Rightarrow> nat \<Rightarrow> byte" where
  "octet3 v3 v4 = of_nat (v3 mod 4 * 64 + v4)"

fun sample_encodeBase64 :: "bytes \<Rightarrow> string" where
  "sample_encodeBase64 [] = []"
| "sample_encodeBase64 [a] =
     [BASE64_ALPHABET ! sextet1 a, BASE64_ALPHABET ! sextet2 a 0, CHR ''='', CHR ''='']"
| "sample_encodeBase64 [a, b] =
     [BASE64_ALPHABET ! sextet1 a, BASE64_ALPHABET ! sextet2 a b,
      BASE64_ALPHABET ! sextet3 b 0, CHR ''='']"
| "sample_encodeBase64 (a # b # c # rest) =
     [BASE64_ALPHABET ! sextet1 a, BASE64_ALPHABET ! sextet2 a b,
      BASE64_ALPHABET ! sextet3 b c, BASE64_ALPHABET ! sextet4 c] @
     sample_encodeBase64 rest"

fun base64_quads :: "string \<Rightarrow> bytes option" where
  "base64_quads (c1 # c2 # c3 # c4 # rest) =
     (case (indexOf BASE64_ALPHABET c1, indexOf BASE64_ALPHABET c2) of
        (Some v1, Some v2) \<Rightarrow>
          if rest = [] \<and> c3 = CHR ''='' \<and> c4 = CHR ''=''
          then Some [octet1 v1 v2]
          else (case indexOf BASE64_ALPHABET c3 of
             None \<Rightarrow> None
           | Some v3 \<Rightarrow>
               if rest = [] \<and> c4 = CHR ''=''
               then Some [octet1 v1 v2, octet2 v2 v3]
               else (case indexOf BASE64_ALPHABET c4 of
                  None \<Rightarrow> None
                | Some v4 \<Rightarrow>
                    map_option
                      (\<lambda>more. [octet1 v1 v2, octet2 v2 v3, octet3 v3 v4] @ more)
                      (base64_quads rest)))
      | _ \<Rightarrow> None)"
| "base64_quads [] = Some []"
| "base64_quads s = None"

definition sample_decodeBase64 :: "string \<Rightarrow> js_error + bytes" where
  "sample_decodeBase64 s =
     (case base64_quads s of
        None \<Rightarrow> Inl (TypeError ''invalid encoding'')
      | Some b \<Rightarrow> Inr b)"

definition sample_pad :: "bytes \<Rightarrow> bytes \<Rightarrow> byte" where
  "sample_pad key nonce' = sum_list key + sum_list nonce'"

definition sample_tag :: "bytes \<Rightarrow> bytes \<Rightarrow> bytes \<Rightarrow> bytes" where
  "sample_tag key nonce' c =
     map2 (\<lambda>k n. k + n + sum_list c + of_nat (length c)) (take 16 key) (take 16 nonce')"

definition sample_secretbox :: "bytes \<Rightarrow> bytes \<Rightarrow> bytes \<Rightarrow> js_error + bytes" where
  "sample_secretbox msg nonce' key =
     (if length key \<noteq> 32 then Inl (Error ''bad key size'')
      else if length nonce' \<noteq> 24 then Inl (Error ''bad nonce size'')
      else
        let c = map (\<lambda>b. b + sample_pad key nonce') msg
        in Inr (sample_tag key nonce' c @ c))"

definition sample_secretbox_open :: "bytes \<Rightarrow> bytes \<Rightarrow> bytes \<Rightarrow> js_error + bytes option" where
  "sample_secretbox_open box nonce' key =
     (if length key \<noteq> 32 then Inl (Error ''bad key size'')
      else if length nonce' \<noteq> 24 then Inl (Error ''bad nonce size'')
      else if length box < 16 then Inr None
      else
        let c = drop 16 box
        in if take 16 box = sample_tag key nonce' c
           then Inr (Some (map (\<lambda>b. b - sample_pad key nonce') c))
           else Inr None)"

definition sample_signature :: "bytes \<Rightarrow> bytes \<Rightarrow> bytes" where
  "sample_signature publicKey msg =
     map (\<lambda>b. b + sum_list msg + of_nat (length msg)) (publicKey @ publicKey)"

definition sample_sign_keyPair :: "entropy \<Rightarrow> (bytes \<times> bytes) \<times> entropy" where
  "sample_sign_keyPair rnd =
     (let (seed, rnd') = randomBytes 32 rnd;
          publicKey = map (\<lambda>b. b + 1) seed
      in ((seed @ publicKey, publicKey), rnd'))"

definition sample_sign :: "bytes \<Rightarrow> bytes \<Rightarrow> js_error + bytes" where
  "sample_sign msg secretKey =
     (if length secretKey \<noteq> 64 then Inl (Error ''bad secret key size'')
      else Inr (sample_signature (drop 32 secretKey) msg @ msg))"

definition sample_sign_open :: "bytes \<Rightarrow> bytes \<Rightarrow> js_error + bytes option" where
  "sample_sign_open signedMsg publicKey =
     (if length publicKey \<noteq> 32 then Inl (Error ''bad public key size'')
      else if length signedMsg < 64 then Inr None
      else if take 64 signedMsg = sample_signature publicKey (drop 64 signedMsg)
           then Inr (Some (drop 64 signedMsg))
           else Inr None)"

definition sample_nacl :: tweetnacl where
  "sample_nacl =
     \<lparr>nacl_secretbox = sample_secretbox,
      nacl_secretbox_open = sample_secretbox_open,
      nacl_sign = sample_sign,
      nacl_sign_open = sample_sign_open,
      nacl_sign_keyPair = sample_sign_keyPair,
      encodeBase64 = sample_encodeBase64,
      decodeBase64 = sample_decodeBase64\<rparr>"

section \<open>Lemmas: base58 digits\<close>

lemma base58_alphabet_length: "length BASE58_ALPHABET = 58"
  by (simp add: BASE58_ALPHABET_def)

lemma alphabet_distinct: "distinct BASE58_ALPHABET"
  by (simp add: BASE58_ALPHABET_def)

lemma indexOf_nth: "distinct xs \<Longrightarrow> i < length xs \<Longrightarrow> indexOf xs (xs ! i) = Some i"
proof (induction xs arbitrary: i)
  case Nil
  then show ?case by simp
next
  case (Cons x xs)
  show ?case
  proof (cases i)
    case 0
    then show ?thesis by simp
  next
    case (Suc j)
    with Cons.prems have "j < length xs" "xs ! j \<in> set xs" "x \<notin> set xs" by auto
    then have "x \<noteq> xs ! j" by auto
    with Cons Suc show ?thesis by simp
  qed
qed

lemma indexOf_alphabet: "d < 58 \<Longrightarrow> indexOf BASE58_ALPHABET (BASE58_ALPHABET ! d) = Some d"
  by (rule indexOf_nth) (simp_all add: alphabet_distinct base58_alphabet_length)

lemma indexOf_None: "indexOf xs c = None \<longleftrightarrow> c \<notin> set xs"
  by (induction xs) auto

lemma decode_digits_append:
  "decode_digits acc (xs @ ys) =
     (case decode_digits acc xs of Inl e \<Rightarrow> Inl e | Inr a \<Rightarrow> decode_digits a ys)"
  by (induction xs arbitrary: acc) (auto split: option.splits)

lemma push_digits_zero: "push_digits 0 r = r"
  by (subst push_digits.simps) simp

lemma push_digits_pos:
  "0 < n \<Longrightarrow> push_digits n r = push_digits (n div 58) (r @ [BASE58_ALPHABET ! (n mod 58)])"
  by (subst push_digits.simps) simp

lemma push_digits_acc: "push_digits n r = r @ push_digits n []"
proof (induction n arbitrary: r rule: less_induct)
  case (less n)
  show ?case
  proof (cases "0 < n")
    case True
    then have lt: "n div 58 < n" by simp
    let ?c = "BASE58_ALPHABET ! (n mod 58)"
    have "push_digits n r = (r @ [?c]) @ push_digits (n div 58) []"
      using True less.IH[OF lt, of "r @ [?c]"] by (simp add: push_digits_pos)
    moreover have "push_digits n [] = [?c] @ push_digits (n div 58) []"
      using True less.IH[OF lt, of "[?c]"] by (simp add: push_digits_pos)
    ultimately show ?thesis by simp
  next
    case False
    then show ?thesis by (simp add: push_digits_zero)
  qed
qed

lemma push_digits_step:
  "0 < n \<Longrightarrow> push_digits n [] = (BASE58_ALPHABET ! (n mod 58)) # push_digits (n div 58) []"
  using push_digits_acc[of "n div 58" "[BASE58_ALPHABET ! (n mod 58)]"]
  by (simp add: push_digits_pos)

lemma decode_rev_push_digits:
  "decode_digits acc (rev (push_digits n [])) = Inr (acc * 58 ^ length (push_digits n []) + n)"
proof (induction n arbitrary: acc rule: less_induct)
  case (less n)
  show ?case
  proof (cases "0 < n")
    case True
    then have lt: "n div 58 < n" by simp
    have d: "n mod 58 < 58" by simp
    show ?thesis
      using True less.IH[OF lt, of acc] indexOf_alphabet[OF d]
      by (simp add: push_digits_step decode_digits_append algebra_simps)
  next
    case False
    then show ?thesis by (simp add: push_digits_zero)
  qed
qed

lemma alphabet_zero: "BASE58_ALPHABET ! 0 = CHR ''1''"
  by (simp add: BASE58_ALPHABET_def)

lemma alphabet_nth_nonzero: "0 < d \<Longrightarrow> d < 58 \<Longrightarrow> BASE58_ALPHABET ! d \<noteq> BASE58_ALPHABET ! 0"
  using alphabet_distinct by (simp add: nth_eq_iff_index_eq base58_alphabet_length)

lemma push_digits_nonempty: "0 < n \<Longrightarrow> push_digits n [] \<noteq> []"
  by (simp add: push_digits_step)

lemma last_push_digits: "0 < n \<Longrightarrow> last (push_digits n []) \<noteq> BASE58_ALPHABET ! 0"
proof (induction n rule: less_induct)
  case (less n)
  show ?case
  proof (cases "0 < n div 58")
    case True
    then have "n div 58 < n" using less.prems by simp
    from less.IH[OF this True] True less.prems show ?thesis
      by (simp add: push_digits_step[of n] push_digits_nonempty)
  next
    case False
    then have "n < 58" by (simp add: div_eq_0_iff)
    with less.prems False show ?thesis
      by (simp add: push_digits_step[of n] push_digits_zero alphabet_nth_nonzero)
  qed
qed

lemma decode_digits_leading_ones:
  "decode_digits 0 (replicate z (BASE58_ALPHABET ! 0) @ s) = decode_digits 0 s"
  using indexOf_alphabet[of 0] by (induction z) simp_all

lemma push_leading_zeros_eq:
  "push_leading_zeros data r =
     r @ replicate (length (takeWhile (\<lambda>b. b = 0) data)) (BASE58_ALPHABET ! 0)"
  by (induction data arbitrary: r) (simp_all add: replicate_app_Cons_same)

lemma count_leading_ones_eq:
  "s \<noteq> [] \<Longrightarrow> hd s \<noteq> BASE58_ALPHABET ! 0 \<Longrightarrow>
   count_leading_ones (replicate z (BASE58_ALPHABET ! 0) @ s) k = k + z"
  by (induction z arbitrary: k) (cases s; simp)+

section \<open>Lemmas: big integers and bytes\<close>

lemma bytes_to_bigint_snoc: "bytes_to_bigint (bs @ [b]) = bytes_to_bigint bs * 256 + unat b"
  by (simp add: bytes_to_bigint_def)

lemma bytes_to_bigint_Nil: "bytes_to_bigint [] = 0"
  by (simp add: bytes_to_bigint_def)

lemma unat_byte_lt: "unat (b :: byte) < 256"
  using unsigned_less[of b, where 'a = nat] by simp

lemma bytes_to_bigint_lt: "bytes_to_bigint bs < 256 ^ length bs"
proof (induction bs rule: rev_induct)
  case Nil
  then show ?case by (simp add: bytes_to_bigint_Nil)
next
  case (snoc b bs)
  have "bytes_to_bigint bs * 256 + unat b < (bytes_to_bigint bs + 1) * 256"
    using unat_byte_lt[of b] by simp
  also have "\<dots> \<le> 256 ^ length bs * 256"
    using snoc.IH by (intro mult_le_mono1) simp
  finally show ?case by (simp add: bytes_to_bigint_snoc)
qed

lemma foldl_bigint_acc:
  "foldl (\<lambda>num byte. num * 256 + unat (byte::byte)) acc bs = acc * 256 ^ length bs + bytes_to_bigint bs"
proof (induction bs rule: rev_induct)
  case Nil
  then show ?case by (simp add: bytes_to_bigint_Nil)
next
  case (snoc b bs)
  then show ?case by (simp add: bytes_to_bigint_snoc algebra_simps)
qed

lemma bytes_to_bigint_Cons:
  "bytes_to_bigint (b # bs) = unat b * 256 ^ length bs + bytes_to_bigint bs"
  using foldl_bigint_acc[of "unat b" bs] by (simp add: bytes_to_bigint_def)

lemma bytes_to_bigint_zeros: "bytes_to_bigint (replicate z 0 @ bs) = bytes_to_bigint bs"
  by (induction z) (simp_all add: bytes_to_bigint_Cons)

lemma bytes_to_bigint_ge:
  "b \<noteq> 0 \<Longrightarrow> 256 ^ length bs \<le> bytes_to_bigint (b # bs)"
proof -
  assume "b \<noteq> 0"
  then have "1 \<le> unat b" by (simp add: unat_gt_0 Suc_le_eq)
  then have "1 * 256 ^ length bs \<le> unat b * 256 ^ length bs"
    by (intro mult_le_mono1)
  then have "256 ^ length bs \<le> unat b * 256 ^ length bs + bytes_to_bigint bs"
    by linarith
  then show ?thesis by (simp only: bytes_to_bigint_Cons)
qed

lemma toString16_small: "n < 16 \<Longrightarrow> length (toString16 n) = 1"
  by (subst toString16.simps) simp

lemma toString16_big: "\<not> n < 16 \<Longrightarrow> length (toString16 n) = Suc (length (toString16 (n div 16)))"
  by (subst toString16.simps) simp

lemma toString16_pos: "0 < length (toString16 n)"
  by (cases "n < 16") (simp_all add: toString16_small toString16_big)

lemma toString16_le: "n < 16 ^ Suc L \<Longrightarrow> length (toString16 n) \<le> Suc L"
proof (induction L arbitrary: n)
  case 0
  then show ?case by (simp add: toString16_small)
next
  case (Suc L)
  show ?case
  proof (cases "n < 16")
    case True
    then show ?thesis by (simp add: toString16_small)
  next
    case False
    from Suc.prems have "n div 16 < 16 ^ Suc L"
      by (simp add: less_mult_imp_div_less mult.commute)
    from Suc.IH[OF this] False show ?thesis by (simp add: toString16_big)
  qed
qed

lemma toString16_gt: "16 ^ L \<le> n \<Longrightarrow> L < length (toString16 n)"
proof (induction L arbitrary: n)
  case 0
  show ?case by (rule toString16_pos)
next
  case (Suc L)
  then have ge: "16 \<le> n"
    by (metis (no_types) One_nat_def le_trans one_le_numeral one_le_power power_Suc mult.right_neutral mult_le_mono2)
  from Suc.prems have "16 ^ L \<le> n div 16"
    by (simp add: less_eq_div_iff_mult_less_eq mult.commute)
  from Suc.IH[OF this] ge show ?case by (simp add: toString16_big)
qed

lemma byteLength_eq:
  assumes "b \<noteq> 0"
  shows "(length (toString16 (bytes_to_bigint (b # bs))) + 1) div 2 = Suc (length bs)"
proof -
  let ?n = "bytes_to_bigint (b # bs)"
  have "?n < 256 ^ Suc (length bs)" using bytes_to_bigint_lt[of "b # bs"] by simp
  also have "(256::nat) ^ Suc (length bs) = 16 ^ (2 * Suc (length bs))"
    by (simp only: power_mult) simp
  also have "2 * Suc (length bs) = Suc (2 * length bs + 1)" by simp
  finally have up: "length (toString16 ?n) \<le> 2 * length bs + 2"
    using toString16_le[of ?n "2 * length bs + 1"] by simp
  have "(256::nat) ^ length bs = 16 ^ (2 * length bs)"
    by (simp add: power_mult)
  then have "16 ^ (2 * length bs) \<le> ?n" using bytes_to_bigint_ge[OF assms, of bs] by simp
  then have lo: "2 * length bs < length (toString16 ?n)" by (rule toString16_gt)
  from up lo show ?thesis by arith
qed

section \<open>Lemmas: the base58 round trip\<close>

lemma bigint_digit:
  "i < length bs \<Longrightarrow> bytes_to_bigint bs div 256 ^ i mod 256 = unat (bs ! (length bs - 1 - i))"
proof (induction bs arbitrary: i rule: rev_induct)
  case Nil
  then show ?case by simp
next
  case (snoc b bs)
  show ?case
  proof (cases i)
    case 0
    then show ?thesis using unat_byte_lt[of b] by (simp add: bytes_to_bigint_snoc)
  next
    case (Suc j)
    with snoc.prems have j: "j < length bs" by simp
    have "(bytes_to_bigint bs * 256 + unat b) div 256 ^ Suc j = bytes_to_bigint bs div 256 ^ j"
      using unat_byte_lt[of b] by (simp add: div_mult2_eq)
    moreover have "length bs - Suc j < length bs" using j by arith
    ultimately show ?thesis using snoc.IH[OF j] Suc j
      by (simp add: bytes_to_bigint_snoc nth_append)
  qed
qed

lemma shift_mask_nat: "drop_bit (i * 8) (n::nat) AND 255 = n div 256 ^ i mod 256"
proof -
  have "(255::nat) = mask 8" by (simp add: mask_eq_exp_minus_1)
  then have "drop_bit (i * 8) n AND 255 = take_bit 8 (drop_bit (i * 8) n)"
    by (simp add: take_bit_eq_mask)
  also have "\<dots> = n div 2 ^ (i * 8) mod 2 ^ 8"
    by (simp add: take_bit_eq_mod drop_bit_eq_div)
  also have "(2::nat) ^ (i * 8) = (2 ^ 8) ^ i"
    by (simp only: mult.commute[of i 8] power_mult)
  finally show ?thesis by simp
qed

lemma fold_write:
  "k \<le> m \<Longrightarrow>
   length (fold (\<lambda>i bs. bs[z + m - 1 - i := v i]) [0..<k] (replicate (z + m) (0::byte))) = z + m \<and>
   (\<forall>j < z + m. fold (\<lambda>i bs. bs[z + m - 1 - i := v i]) [0..<k] (replicate (z + m) 0) ! j =
       (if z + m - k \<le> j then v (z + m - 1 - j) else 0))"
proof (induction k)
  case 0
  then show ?case by simp
next
  case (Suc k)
  then have IH: "length (fold (\<lambda>i bs. bs[z + m - 1 - i := v i]) [0..<k] (replicate (z + m) (0::byte))) = z + m"
     "\<And>j. j < z + m \<Longrightarrow> fold (\<lambda>i bs. bs[z + m - 1 - i := v i]) [0..<k] (replicate (z + m) 0) ! j =
       (if z + m - k \<le> j then v (z + m - 1 - j) else 0)"
    by simp_all
  show ?case
  proof (intro conjI allI impI)
    show "length (fold (\<lambda>i bs. bs[z + m - 1 - i := v i]) [0..<Suc k] (replicate (z + m) (0::byte))) = z + m"
      using IH(1) by simp
  next
    fix j assume j: "j < z + m"
    show "fold (\<lambda>i bs. bs[z + m - 1 - i := v i]) [0..<Suc k] (replicate (z + m) 0) ! j =
       (if z + m - Suc k \<le> j then v (z + m - 1 - j) else 0)"
    proof (cases "j = z + m - 1 - k")
      case True
      then have "z + m - 1 - j = k" using Suc.prems j by arith
      with True show ?thesis using IH(1) j Suc.prems by simp
    next
      case False
      then have "(z + m - Suc k \<le> j) = (z + m - k \<le> j)" using Suc.prems j by arith
      with False show ?thesis using IH(1) IH(2)[OF j] j by simp
    qed
  qed
qed

lemma write_bytes_eq:
  "write_bytes (bytes_to_bigint rest) z (length rest) = replicate z 0 @ rest"
proof (rule nth_equalityI)
  let ?v = "\<lambda>i. (of_nat (drop_bit (i * 8) (bytes_to_bigint rest) AND 255) :: byte)"
  note fw = fold_write[of "length rest" "length rest" z ?v, OF le_refl]
  show len: "length (write_bytes (bytes_to_bigint rest) z (length rest)) = length (replicate z 0 @ rest)"
    using fw by (simp add: write_bytes_def)
  fix j assume "j < length (write_bytes (bytes_to_bigint rest) z (length rest))"
  then have j: "j < z + length rest" using len by simp
  show "write_bytes (bytes_to_bigint rest) z (length rest) ! j = (replicate z 0 @ rest) ! j"
  proof (cases "j < z")
    case True
    then show ?thesis using fw j by (simp add: write_bytes_def nth_append)
  next
    case False
    then have i: "z + length rest - 1 - j < length rest" using j by arith
    have "length rest - 1 - (z + length rest - 1 - j) = j - z" using False j by arith
    then have "?v (z + length rest - 1 - j) = rest ! (j - z)"
      using bigint_digit[OF i] by (simp add: shift_mask_nat)
    then show ?thesis using fw j False by (simp add: write_bytes_def nth_append)
  qed
qed

lemma base58_roundtrip_nonzero:
  assumes "bytes_to_bigint data \<noteq> 0"
  shows "base58Decode (base58Encode data) = Inr data"
proof -
  define z where "z = length (takeWhile (\<lambda>b. b = 0) data)"
  define rest where "rest = dropWhile (\<lambda>b. b = 0) data"
  have data: "data = replicate z 0 @ rest"
  proof -
    have "takeWhile (\<lambda>b. b = 0) data = replicate z 0"
      unfolding z_def by (rule replicate_length_same[symmetric]) (auto dest: set_takeWhileD)
    then show ?thesis unfolding rest_def by (metis takeWhile_dropWhile_id)
  qed
  define num where "num = bytes_to_bigint data"
  have num_rest: "num = bytes_to_bigint rest"
    unfolding num_def by (subst data) (rule bytes_to_bigint_zeros)
  have "rest \<noteq> []" using assms num_rest by (auto simp: num_def bytes_to_bigint_Nil)
  then obtain b bs where rest_eq: "rest = b # bs" by (cases rest) auto
  have "b \<noteq> 0" using rest_eq hd_dropWhile[of "\<lambda>b. b = 0" data] \<open>rest \<noteq> []\<close>
    by (simp add: rest_def)
  have pos: "0 < num" using assms by (simp add: num_def)
  let ?ds = "rev (push_digits num [])"
  have enc: "base58Encode data = replicate z (BASE58_ALPHABET ! 0) @ ?ds"
    using assms by (simp add: base58Encode_def Let_def push_leading_zeros_eq z_def num_def)
  have ds_ne: "?ds \<noteq> []" using push_digits_nonempty[OF pos] by simp
  have hd_ds: "hd ?ds \<noteq> BASE58_ALPHABET ! 0"
    using last_push_digits[OF pos] push_digits_nonempty[OF pos] by (simp add: hd_rev)
  have dec: "decode_digits 0 (base58Encode data) = Inr num"
    by (simp add: enc decode_digits_leading_ones decode_rev_push_digits)
  have lz: "count_leading_ones (base58Encode data) 0 = z"
    using count_leading_ones_eq[OF ds_ne hd_ds, of z 0] by (simp add: enc)
  have bl: "Suc (length (toString16 num)) div 2 = length rest"
    using byteLength_eq[OF \<open>b \<noteq> 0\<close>, of bs] by (simp add: num_rest rest_eq)
  have "base58Encode data \<noteq> []" using ds_ne by (simp add: enc)
  then have "base58Decode (base58Encode data) = Inr (write_bytes num z (length rest))"
    using pos by (simp add: base58Decode_def dec lz bl Let_def)
  also have "write_bytes num z (length rest) = data"
    using write_bytes_eq[of rest z] data by (simp add: num_rest)
  finally show ?thesis .
qed

section \<open>Lemmas: the executable instance meets the contracts\<close>

lemma base64_alphabet_length: "length BASE64_ALPHABET = 64"
  by (simp add: BASE64_ALPHABET_def)

lemma base64_alphabet_distinct: "distinct BASE64_ALPHABET"
  by (simp add: BASE64_ALPHABET_def)

lemma base64_index: "v < 64 \<Longrightarrow> indexOf BASE64_ALPHABET (BASE64_ALPHABET ! v) = Some v"
  by (rule indexOf_nth) (simp_all add: base64_alphabet_distinct base64_alphabet_length)

lemma base64_not_pad: "v < 64 \<Longrightarrow> BASE64_ALPHABET ! v \<noteq> CHR ''=''"
proof -
  assume "v < 64"
  then have "BASE64_ALPHABET ! v \<in> set BASE64_ALPHABET"
    by (simp add: base64_alphabet_length)
  moreover have "CHR ''='' \<notin> set BASE64_ALPHABET"
    by (simp add: BASE64_ALPHABET_def)
  ultimately show ?thesis by metis
qed

lemma sextet_bounds: "sextet1 a < 64" "sextet2 a b < 64" "sextet3 b c < 64" "sextet4 c < 64"
  using unat_byte_lt[of a] unat_byte_lt[of b] unat_byte_lt[of c]
  by (auto simp: sextet1_def sextet2_def sextet3_def sextet4_def)

lemma octet1_sextets: "octet1 (sextet1 a) (sextet2 a b) = a"
proof -
  have "unat b div 16 < 16" using unat_byte_lt[of b] by simp
  then have e: "(unat a mod 4 * 16 + unat b div 16) div 16 = unat a mod 4" by simp
  have "unat a div 4 * 4 + unat a mod 4 = unat a" by simp
  then show ?thesis unfolding octet1_def sextet1_def sextet2_def e by (simp only:) simp
qed

lemma octet2_sextets: "octet2 (sextet2 a b) (sextet3 b c) = b"
proof -
  have "unat b div 16 < 16" using unat_byte_lt[of b] by simp
  then have e: "(unat a mod 4 * 16 + unat b div 16) mod 16 = unat b div 16" by simp
  have "unat c div 64 < 4" using unat_byte_lt[of c] by simp
  then have f: "(unat b mod 16 * 4 + unat c div 64) div 4 = unat b mod 16" by simp
  have "unat b div 16 * 16 + unat b mod 16 = unat b" by simp
  then show ?thesis unfolding octet2_def sextet2_def sextet3_def e f by (simp only:) simp
qed

lemma octet3_sextets: "octet3 (sextet3 b c) (sextet4 c) = c"
proof -
  have "unat c div 64 < 4" using unat_byte_lt[of c] by simp
  then have e: "(unat b mod 16 * 4 + unat c div 64) mod 4 = unat c div 64" by simp
  have "unat c div 64 * 64 + unat c mod 64 = unat c" by simp
  then show ?thesis unfolding octet3_def sextet3_def sextet4_def e by (simp only:) simp
qed

lemma base64_quads_encode: "base64_quads (sample_encodeBase64 bs) = Some bs"
proof (induction bs rule: sample_encodeBase64.induct)
  case 1
  then show ?case by simp
next
  case (2 a)
  show ?case
    by (simp add: base64_index sextet_bounds octet1_sextets)
next
  case (3 a b)
  show ?case
    by (simp add: base64_index base64_not_pad sextet_bounds octet1_sextets octet2_sextets)
next
  case (4 a b c rest)
  then show ?case
    by (simp add: base64_index base64_not_pad sextet_bounds octet1_sextets octet2_sextets
        octet3_sextets)
qed

lemma sample_base64_correct: "base64_correct sample_nacl"
  by (simp add: base64_correct_def sample_nacl_def sample_decodeBase64_def base64_quads_encode)

lemma length_sample_tag:
  "length key = 32 \<Longrightarrow> length nonce' = 24 \<Longrightarrow> length (sample_tag key nonce' c) = 16"
  by (simp add: sample_tag_def)

lemma sample_secretbox_correct: "secretbox_correct sample_nacl"
  unfolding secretbox_correct_def
proof (intro allI impI)
  fix msg nonce' key :: bytes
  assume len: "length key = 32 \<and> length nonce' = 24"
  let ?c = "map (\<lambda>b. b + sample_pad key nonce') msg"
  let ?box = "sample_tag key nonce' ?c @ ?c"
  have t: "length (sample_tag key nonce' ?c) = 16" using len by (simp add: length_sample_tag)
  have "nacl_secretbox sample_nacl msg nonce' key = Inr ?box"
    using len by (simp add: sample_nacl_def sample_secretbox_def Let_def)
  moreover have "nacl_secretbox_open sample_nacl ?box nonce' key = Inr (Some msg)"
    using len t by (simp add: sample_nacl_def sample_secretbox_open_def Let_def o_def)
  ultimately show "\<exists>box. nacl_secretbox sample_nacl msg nonce' key = Inr box \<and>
      nacl_secretbox_open sample_nacl box nonce' key = Inr (Some msg)"
    by blast
qed


section \<open>Lemmas: decoding errors and concrete encodings\<close>

lemma decode_digits_valid:
  "set s \<subseteq> set BASE58_ALPHABET \<Longrightarrow> \<exists>n. decode_digits acc s = Inr n"
proof (induction s arbitrary: acc)
  case Nil
  then show ?case by simp
next
  case (Cons c s)
  then obtain i where "indexOf BASE58_ALPHABET c = Some i"
    using indexOf_None[of BASE58_ALPHABET c] by (cases "indexOf BASE58_ALPHABET c") auto
  with Cons show ?case by simp
qed

lemma decode_digits_invalid:
  "\<not> set s \<subseteq> set BASE58_ALPHABET \<Longrightarrow>
   \<exists>c. c \<in> set s \<and> c \<notin> set BASE58_ALPHABET \<and>
       decode_digits acc s = Inl (Error (''Invalid base58 character: '' @ [c]))"
proof (induction s arbitrary: acc)
  case Nil
  then show ?case by simp
next
  case (Cons c s)
  show ?case
  proof (cases "indexOf BASE58_ALPHABET c")
    case None
    then have "c \<notin> set BASE58_ALPHABET" by (simp add: indexOf_None)
    with None show ?thesis by auto
  next
    case (Some i)
    then have "c \<in> set BASE58_ALPHABET"
      using indexOf_None[of BASE58_ALPHABET c] by auto
    with Cons.prems have "\<not> set s \<subseteq> set BASE58_ALPHABET" by auto
    from Cons.IH[OF this, of "acc * 58 + i"] Some show ?thesis by auto
  qed
qed

lemma base58Decode_valid:
  "set s \<subseteq> set BASE58_ALPHABET \<Longrightarrow> \<exists>decoded. base58Decode s = Inr decoded"
  using decode_digits_valid[of s 0] by (auto simp: base58Decode_def Let_def)

lemma base58Decode_invalid:
  "\<not> set s \<subseteq> set BASE58_ALPHABET \<Longrightarrow>
   \<exists>c. c \<in> set s \<and> c \<notin> set BASE58_ALPHABET \<and>
       base58Decode s = Inl (Error (''Invalid base58 character: '' @ [c]))"
  using decode_digits_invalid[of s 0] by (auto simp: base58Decode_def)

lemma multicodec_check:
  "(at_index decoded 0 \<noteq> at_index ED25519_MULTICODEC_PREFIX 0 \<or>
    at_index decoded 1 \<noteq> at_index ED25519_MULTICODEC_PREFIX 1) =
   (take 2 decoded \<noteq> [0xed, 0x01])"
proof (cases decoded)
  case Nil
  then show ?thesis by (simp add: at_index_def ED25519_MULTICODEC_PREFIX_def)
next
  case (Cons a as)
  then show ?thesis
    by (cases as) (auto simp: at_index_def ED25519_MULTICODEC_PREFIX_def)
qed

lemma multicodec_data_nonzero: "bytes_to_bigint (0xed # 0x01 # k) \<noteq> 0"
proof -
  have "(0xed :: byte) \<noteq> 0" by simp
  from bytes_to_bigint_ge[OF this, of "0x01 # k"] show ?thesis
    by (metis less_numeral_extra(3) zero_less_numeral zero_less_power not_less)
qed

lemma replicate_32:
  "replicate 32 x = [x, x, x, x, x, x, x, x, x, x, x, x, x, x, x, x,
                     x, x, x, x, x, x, x, x, x, x, x, x, x, x, x, x]"
  by (simp add: numeral_eq_Suc)

lemma example_short_encoding: "base58Encode [0xed, 0x01] = ''K36''"
  by (simp add: base58Encode_def bytes_to_bigint_def push_digits_pos push_digits_zero
      BASE58_ALPHABET_def)

lemma example_did_encoding:
  "base58Encode (0xed # 0x01 # replicate 32 7) =
     ''6Mkevh7bMWWUda468bFjfFGtDxLXgkG8L46bsaXEwHD9Z3L''"
  by (simp add: replicate_32 base58Encode_def bytes_to_bigint_def push_digits_pos
      push_digits_zero BASE58_ALPHABET_def)

lemma length_randomBytes: "length (fst (randomBytes n rnd)) = n"
  by (simp add: randomBytes_def)

section \<open>Lemmas: the vault envelope\<close>

lemma encryptForVault_parts:
  assumes "encryptForVault lib p k rnd = Inr (out, rnd')"
  shows "\<exists>dek n1 n2 w.
     length dek = 32 \<and> length n1 = 24 \<and> length n2 = 24 \<and>
     nacl_secretbox lib p n1 dek = Inr (encryptedBlob out) \<and>
     nacl_secretbox lib dek n2 k = Inr w \<and>
     encryptionMeta out =
       \<lparr>scheme = SCHEME_SECRETBOX, nonce = encodeBase64 lib n1,
        key_wrap = \<lparr>algorithm = ''XSalsa20-Poly1305'', wrapped_key = encodeBase64 lib w,
                    wrap_nonce = encodeBase64 lib n2\<rparr>\<rparr>"
proof -
  obtain dek rnd1 where g1: "generateKey rnd = (dek, rnd1)" by (cases "generateKey rnd")
  obtain n1 rnd2 where g2: "generateNonce rnd1 = (n1, rnd2)" by (cases "generateNonce rnd1")
  obtain n2 rnd3 where g3: "generateNonce rnd2 = (n2, rnd3)" by (cases "generateNonce rnd2")
  have l: "length dek = 32" "length n1 = 24" "length n2 = 24"
    using g1 g2 g3 length_randomBytes[of 32 rnd] length_randomBytes[of 24 rnd1]
      length_randomBytes[of 24 rnd2]
    by (simp_all add: generateKey_def generateNonce_def keyLength_def nonceLength_def)
  from assms obtain c where c: "nacl_secretbox lib p n1 dek = Inr c"
    by (cases "nacl_secretbox lib p n1 dek") (simp_all add: encryptForVault_def g1 g2)
  from assms c obtain w where w: "nacl_secretbox lib dek n2 k = Inr w"
    by (cases "nacl_secretbox lib dek n2 k") (simp_all add: encryptForVault_def g1 g2 g3)
  from assms c w have "out = \<lparr>encryptedBlob = c, encryptionMeta =
       \<lparr>scheme = SCHEME_SECRETBOX, nonce = encodeBase64 lib n1,
        key_wrap = \<lparr>algorithm = ''XSalsa20-Poly1305'', wrapped_key = encodeBase64 lib w,
                    wrap_nonce = encodeBase64 lib n2\<rparr>\<rparr>\<rparr>"
    by (simp add: encryptForVault_def g1 g2 g3)
  with l c w show ?thesis by auto
qed

lemma encryptForVault_returns:
  assumes "secretbox_correct lib" "length k = 32"
  shows "\<exists>out rnd'. encryptForVault lib p k rnd = Inr (out, rnd')"
proof -
  obtain dek rnd1 where g1: "generateKey rnd = (dek, rnd1)" by (cases "generateKey rnd")
  obtain n1 rnd2 where g2: "generateNonce rnd1 = (n1, rnd2)" by (cases "generateNonce rnd1")
  obtain n2 rnd3 where g3: "generateNonce rnd2 = (n2, rnd3)" by (cases "generateNonce rnd2")
  have l: "length dek = 32" "length n1 = 24" "length n2 = 24"
    using g1 g2 g3 length_randomBytes[of 32 rnd] length_randomBytes[of 24 rnd1]
      length_randomBytes[of 24 rnd2]
    by (simp_all add: generateKey_def generateNonce_def keyLength_def nonceLength_def)
  from assms l obtain c where c: "nacl_secretbox lib p n1 dek = Inr c"
    unfolding secretbox_correct_def by blast
  from assms l obtain w where w: "nacl_secretbox lib dek n2 k = Inr w"
    unfolding secretbox_correct_def by blast
  show ?thesis by (simp add: encryptForVault_def g1 g2 g3 c w)
qed

lemma secretbox_correct_open:
  assumes "secretbox_correct lib" "length key = 32" "length n = 24"
    "nacl_secretbox lib m n key = Inr box"
  shows "nacl_secretbox_open lib box n key = Inr (Some m)"
  using assms unfolding secretbox_correct_def by (metis sum.inject(2))

text \<open>
  The executable instance rejects a box under a key with another first byte, and a
  box whose first byte was changed.
\<close>

lemma sample_secretbox_box:
  assumes "nacl_secretbox sample_nacl m n key = Inr box"
  shows "length key = 32 \<and> length n = 24 \<and>
         box = sample_tag key n (map (\<lambda>b. b + sample_pad key n) m) @
               map (\<lambda>b. b + sample_pad key n) m"
  using assms by (auto simp: sample_nacl_def sample_secretbox_def Let_def split: if_splits)

lemma sample_tag_Cons:
  "length key = 32 \<Longrightarrow> length n = 24 \<Longrightarrow>
   \<exists>t. sample_tag key n c = (hd key + hd n + sum_list c + of_nat (length c)) # t \<and> length t = 15"
proof -
  assume a: "length key = 32" "length n = 24"
  then obtain k0 ks where k: "key = k0 # ks" by (cases key) auto
  from a obtain n0 ns where n: "n = n0 # ns" by (cases n) auto
  have "take 16 key = k0 # take 15 ks" "take 16 n = n0 # take 15 ns"
    by (simp_all add: k n take_Cons')
  then show ?thesis using a by (simp add: sample_tag_def k n)
qed

lemma sample_rejects_other_key:
  assumes "nacl_secretbox sample_nacl m n key = Inr box"
    and "length key' = 32" and "hd key' \<noteq> hd key"
  shows "nacl_secretbox_open sample_nacl box n key' = Inr None"
proof -
  let ?c = "map (\<lambda>b. b + sample_pad key n) m"
  from sample_secretbox_box[OF assms(1)] have l: "length key = 32" "length n = 24"
    and box: "box = sample_tag key n ?c @ ?c" by auto
  have t: "length (sample_tag key n ?c) = 16" using l by (simp add: length_sample_tag)
  obtain t1 where t1: "sample_tag key n ?c = (hd key + hd n + sum_list ?c + of_nat (length ?c)) # t1"
    using sample_tag_Cons[OF l] by blast
  obtain t2 where t2: "sample_tag key' n ?c = (hd key' + hd n + sum_list ?c + of_nat (length ?c)) # t2"
    using sample_tag_Cons[OF assms(2) l(2)] by blast
  have ne: "sample_tag key n ?c \<noteq> sample_tag key' n ?c"
    using assms(3) unfolding t1 t2 by simp
  show ?thesis
    using l assms(2) t ne by (simp add: sample_nacl_def sample_secretbox_open_def box Let_def)
qed

lemma sample_rejects_corrupted:
  assumes "nacl_secretbox sample_nacl m n key = Inr box"
  shows "nacl_secretbox_open sample_nacl (box[0 := box ! 0 + 1]) n key = Inr None"
proof -
  let ?c = "map (\<lambda>b. b + sample_pad key n) m"
  from sample_secretbox_box[OF assms(1)] have l: "length key = 32" "length n = 24"
    and box: "box = sample_tag key n ?c @ ?c" by auto
  obtain x t1 where t1: "sample_tag key n ?c = x # t1" "length t1 = 15"
    using sample_tag_Cons[OF l] by blast
  have "box[0 := box ! 0 + 1] = ((x + 1) # t1) @ ?c" by (simp add: box t1)
  moreover have "(x + 1) # t1 \<noteq> x # t1" by simp
  ultimately show ?thesis
    using l t1 by (simp add: sample_nacl_def sample_secretbox_open_def Let_def)
qed

section \<open>Lemmas: decryptSymmetric\<close>

lemma decryptSymmetric_wraps:
  "decryptSymmetric_try lib payload key = Inl e \<Longrightarrow>
   (\<exists>msg. decryptSymmetric lib payload key = Inl (DecryptionError msg)) \<and>
   (\<forall>m. e = TypeError m \<or> e = Error m \<longrightarrow>
        decryptSymmetric lib payload key = Inl (DecryptionError (''Decryption error: '' @ m)))"
  by (cases e) (simp_all add: decryptSymmetric_def)

lemma sample_base64_values:
  "decodeBase64 sample_nacl ''!!'' = Inl (TypeError ''invalid encoding'')"
  "decodeBase64 sample_nacl '''' = Inr []"
  "decodeBase64 sample_nacl ''AAAAAAAAAAAAAAAAAAAAAAAAAAAAAAAA'' = Inr (replicate 24 0)"
  by code_simp+

lemma sample_open_values:
  "nacl_secretbox_open sample_nacl [] (replicate 24 0) (replicate 32 0) = Inr None"
  "nacl_secretbox_open sample_nacl [] (replicate 24 0) (replicate 31 0) = Inl (Error ''bad key size'')"
  by (simp_all add: sample_nacl_def sample_secretbox_open_def)

section \<open>Lemmas: signature verification\<close>

lemma verifySignature_propagates:
  "nacl_sign_open lib (sig @ m) pk = Inl e \<Longrightarrow> verifySignature lib m sig pk = Inl e"
  by (simp add: verifySignature_def)

lemma verifySignatureBase64_never_raises:
  "\<exists>b. verifySignatureBase64 lib message signatureB64 publicKey = Inr b"
  by (cases "verifySignatureBase64_try lib message signatureB64 publicKey")
    (auto simp: verifySignatureBase64_def)

text \<open>
  A signature cut to 63 bytes is accepted when its last byte is moved to the front of
  the message: \<open>verifySignature\<close> only concatenates signature and message, so the
  signed message that \<open>nacl.sign.open\<close> receives is the genuine one.
\<close>

lemma verifySignature_accepts_split_signature:
  assumes "sign_correct lib"
  shows "\<exists>sig. signMessage lib m (signingKey (fst (generateKeyPair lib rnd))) = Inr sig \<and>
           length (butlast sig) = 63 \<and>
           verifySignature lib (last sig # m) (butlast sig)
             (verifyKey (fst (generateKeyPair lib rnd))) = Inr True"
proof -
  obtain sk pk rnd' where kp: "nacl_sign_keyPair lib rnd = ((sk, pk), rnd')"
    by (metis surj_pair)
  from assms obtain sig where sig: "length sig = 64"
      "nacl_sign lib m sk = Inr (sig @ m)" "nacl_sign_open lib (sig @ m) pk = Inr (Some m)"
    unfolding sign_correct_def using kp by (metis fst_conv snd_conv)
  have s: "signMessage lib m sk = Inr sig"
    using sig by (simp add: signMessage_def signatureLength_def)
  have "sig \<noteq> []" using sig(1) by auto
  then have "butlast sig @ last sig # m = sig @ m" by simp
  then have "verifySignature lib (last sig # m) (butlast sig) pk = Inr True"
    using sig(3) by (simp only: verifySignature_def Let_def) simp
  then show ?thesis using s sig(1) by (simp add: generateKeyPair_def kp)
qed

lemma generated_keys:
  "signingKey (fst (generateKeyPair lib rnd)) = fst (fst (nacl_sign_keyPair lib rnd))"
  "verifyKey (fst (generateKeyPair lib rnd)) = snd (fst (nacl_sign_keyPair lib rnd))"
  by (simp_all add: generateKeyPair_def split_def Let_def)



lemma length_sample_signature: "length pk = 32 \<Longrightarrow> length (sample_signature pk x) = 64"
  by (simp add: sample_signature_def)







text \<open>
  \<open>signMessage\<close> returns 64 bytes, so some two messages have the same signature under
  a key; nobody can name them for Ed25519. This is why the third part of C5 below speaks
  of a message whose signature differs.
\<close>

lemma signature_collision_exists:
  assumes "sign_correct lib"
  shows "\<exists>m m'. m' \<noteq> m \<and>
           signMessage lib m' (signingKey (fst (generateKeyPair lib rnd))) =
           signMessage lib m (signingKey (fst (generateKeyPair lib rnd)))"
proof -
  let ?sk = "signingKey (fst (generateKeyPair lib rnd))"
  define s where "s m = (case signMessage lib m ?sk of Inr x \<Rightarrow> x | Inl e \<Rightarrow> [])" for m
  have sk: "?sk = fst (fst (nacl_sign_keyPair lib rnd))"
    by (simp add: generated_keys)
  have sm: "signMessage lib m ?sk = Inr (s m) \<and> length (s m) \<le> 64" for m
  proof -
    obtain sig where "length sig = 64" "nacl_sign lib m ?sk = Inr (sig @ m)"
      using assms unfolding sign_correct_def sk by blast
    then show ?thesis by (simp add: s_def signMessage_def signatureLength_def)
  qed
  have "range s \<subseteq> {xs. set xs \<subseteq> UNIV \<and> length xs \<le> 64}"
    using sm by auto
  moreover have "finite {xs :: bytes. set xs \<subseteq> UNIV \<and> length xs \<le> 64}"
    by (rule finite_lists_length_le[OF finite])
  ultimately have fin: "finite (range s)" by (rule finite_subset)
  have "infinite (UNIV :: bytes set)" by (rule infinite_UNIV_listI)
  with fin have "\<not> inj s" using finite_imageD[of s UNIV] by blast
  then obtain m m' where "s m = s m'" "m' \<noteq> m" by (metis injI)
  then show ?thesis using sm by metis
qed

section \<open>Claims\<close>

text \<open>
  C1. For every plaintext \<open>p\<close>, the empty one included, and every 32-byte key \<open>k\<close>:
  \<open>encryptForVault(p, k)\<close> returns an envelope, whatever the random bytes drawn, and
  \<open>decryptFromVault\<close> on its blob and metadata with the same key returns exactly
  \<open>p\<close>. The library is any implementation whose \<open>secretbox\<close> and base64 functions
  are correct.
\<close>

theorem vault_roundtrip:
  assumes sc: "secretbox_correct lib" and bc: "base64_correct lib" and k: "length k = 32"
  shows "\<exists>out rnd'. encryptForVault lib p k rnd = Inr (out, rnd') \<and>
           decryptFromVault lib (encryptedBlob out) (encryptionMeta out) k = Inr p"
proof -
  obtain dek rnd1 where g1: "generateKey rnd = (dek, rnd1)" by (cases "generateKey rnd")
  obtain documentNonce rnd2 where g2: "generateNonce rnd1 = (documentNonce, rnd2)"
    by (cases "generateNonce rnd1")
  obtain dekNonce rnd3 where g3: "generateNonce rnd2 = (dekNonce, rnd3)"
    by (cases "generateNonce rnd2")
  have ldek: "length dek = 32"
    using g1 length_randomBytes[of 32 rnd] by (simp add: generateKey_def keyLength_def)
  have ln1: "length documentNonce = 24"
    using g2 length_randomBytes[of 24 rnd1] by (simp add: generateNonce_def nonceLength_def)
  have ln2: "length dekNonce = 24"
    using g3 length_randomBytes[of 24 rnd2] by (simp add: generateNonce_def nonceLength_def)
  from sc ldek ln1 obtain ciphertext where
    c1: "nacl_secretbox lib p documentNonce dek = Inr ciphertext" and
    c2: "nacl_secretbox_open lib ciphertext documentNonce dek = Inr (Some p)"
    unfolding secretbox_correct_def by blast
  from sc k ln2 obtain wrappedDek where
    w1: "nacl_secretbox lib dek dekNonce k = Inr wrappedDek" and
    w2: "nacl_secretbox_open lib wrappedDek dekNonce k = Inr (Some dek)"
    unfolding secretbox_correct_def by blast
  have b: "\<And>x. decodeBase64 lib (encodeBase64 lib x) = Inr x"
    using bc by (simp add: base64_correct_def)
  let ?meta = "\<lparr>scheme = SCHEME_SECRETBOX, nonce = encodeBase64 lib documentNonce,
      key_wrap = \<lparr>algorithm = ''XSalsa20-Poly1305'', wrapped_key = encodeBase64 lib wrappedDek,
                  wrap_nonce = encodeBase64 lib dekNonce\<rparr>\<rparr>"
  have enc: "encryptForVault lib p k rnd =
      Inr (\<lparr>encryptedBlob = ciphertext, encryptionMeta = ?meta\<rparr>, rnd3)"
    by (simp add: encryptForVault_def g1 g2 g3 c1 w1)
  have dec: "decryptFromVault lib ciphertext ?meta k = Inr p"
    by (simp add: decryptFromVault_def b w2 c2)
  show ?thesis using enc dec by simp
qed

text \<open>The round trip on the executable instance, for the empty plaintext and for a
  two-byte one.\<close>

text \<open>
  The round trip on the executable instance, for the empty plaintext and for a
  two-byte one.
\<close>

theorem vault_roundtrip_witness:
  "secretbox_correct sample_nacl \<and> base64_correct sample_nacl \<and>
   length (replicate 32 (1::byte)) = 32 \<and>
   (\<exists>out rnd'. encryptForVault sample_nacl [] (replicate 32 1) (\<lambda>i. of_nat i) = Inr (out, rnd') \<and>
      decryptFromVault sample_nacl (encryptedBlob out) (encryptionMeta out) (replicate 32 1) = Inr []) \<and>
   (\<exists>out rnd'. encryptForVault sample_nacl [104, 105] (replicate 32 1) (\<lambda>i. of_nat i) = Inr (out, rnd') \<and>
      decryptFromVault sample_nacl (encryptedBlob out) (encryptionMeta out) (replicate 32 1) = Inr [104, 105])"
  using vault_roundtrip[OF sample_secretbox_correct sample_base64_correct, of "replicate 32 1" "[]" "\<lambda>i. of_nat i"]
    vault_roundtrip[OF sample_secretbox_correct sample_base64_correct, of "replicate 32 1" "[104, 105]" "\<lambda>i. of_nat i"]
    sample_secretbox_correct sample_base64_correct
  by simp

text \<open>
  C2. For every 32-byte public key \<open>k\<close>, \<open>publicKeyToDid\<close> returns a DID and
  \<open>didToPublicKey\<close> of that DID returns exactly \<open>k\<close>.
\<close>

theorem did_roundtrip:
  assumes "length k = 32"
  shows "\<exists>d. publicKeyToDid k = Inr d \<and> didToPublicKey d = Inr k"
proof -
  let ?data = "0xed # 0x01 # k"
  have rt: "base58Decode (base58Encode ?data) = Inr ?data"
    by (rule base58_roundtrip_nonzero[OF multicodec_data_nonzero])
  have p: "publicKeyToDid k = Inr (''did:key:z'' @ base58Encode ?data)"
    using assms by (simp add: publicKeyToDid_def ED25519_MULTICODEC_PREFIX_def)
  have "didToPublicKey (''did:key:z'' @ base58Encode ?data) = Inr k"
    using assms
    by (simp add: didToPublicKey_def startsWith_def rt at_index_def ED25519_MULTICODEC_PREFIX_def)
  with p show ?thesis by blast
qed

text \<open>
  The key of 32 bytes 7: its DID, and the key read back from the DID.
\<close>

theorem did_roundtrip_witness:
  "length (replicate 32 (7::byte)) = 32 \<and>
   publicKeyToDid (replicate 32 7) =
     Inr ''did:key:z6Mkevh7bMWWUda468bFjfFGtDxLXgkG8L46bsaXEwHD9Z3L'' \<and>
   didToPublicKey ''did:key:z6Mkevh7bMWWUda468bFjfFGtDxLXgkG8L46bsaXEwHD9Z3L'' =
     Inr (replicate 32 7)"
proof -
  have p: "publicKeyToDid (replicate 32 7) =
      Inr ''did:key:z6Mkevh7bMWWUda468bFjfFGtDxLXgkG8L46bsaXEwHD9Z3L''"
    by (simp add: publicKeyToDid_def ED25519_MULTICODEC_PREFIX_def example_did_encoding)
  from did_roundtrip[of "replicate 32 7"] p show ?thesis by auto
qed

text \<open>
  C3. The claim is that a failed unwrap of the DEK (wrong outer key) and a failed
  decryption of the payload (corrupted ciphertext) reach the caller as one uniform
  error. For every library: when \<open>nacl.secretbox.open\<close> rejects the wrapped DEK,
  \<open>decryptFromVault\<close> throws \<open>Error('Failed to unwrap document encryption key')\<close>;
  when the DEK is unwrapped and \<open>nacl.secretbox.open\<close> rejects the payload, it throws
  \<open>Error('Failed to decrypt document')\<close>. The two messages differ, so the caller can
  tell the two causes apart. (The sibling \<open>decryptSymmetric\<close> reports a rejected box
  as one \<open>DecryptionError\<close>, see C10.)
\<close>

theorem vault_failure_messages:
  "(decodeBase64 lib (wrapped_key (key_wrap meta)) = Inr wrappedDek \<and>
    decodeBase64 lib (wrap_nonce (key_wrap meta)) = Inr wrapNonce \<and>
    nacl_secretbox_open lib wrappedDek wrapNonce key = Inr None \<longrightarrow>
      decryptFromVault lib blob meta key = Inl (Error ''Failed to unwrap document encryption key'')) \<and>
   (decodeBase64 lib (wrapped_key (key_wrap meta)) = Inr wrappedDek \<and>
    decodeBase64 lib (wrap_nonce (key_wrap meta)) = Inr wrapNonce \<and>
    nacl_secretbox_open lib wrappedDek wrapNonce key = Inr (Some dek) \<and>
    decodeBase64 lib (nonce meta) = Inr documentNonce \<and>
    nacl_secretbox_open lib blob documentNonce dek = Inr None \<longrightarrow>
      decryptFromVault lib blob meta key = Inl (Error ''Failed to decrypt document'')) \<and>
   Error ''Failed to unwrap document encryption key'' \<noteq> Error ''Failed to decrypt document''"
  by (simp add: decryptFromVault_def)

text \<open>
  On the envelope that \<open>encryptForVault\<close> returns for a key: the call with another
  key, and the call with the first byte of the blob changed.
\<close>

theorem vault_failure_messages_witness:
  "\<exists>out rnd'.
     encryptForVault sample_nacl [104, 105] (replicate 32 1) (\<lambda>i. 0) = Inr (out, rnd') \<and>
     decryptFromVault sample_nacl (encryptedBlob out) (encryptionMeta out) (replicate 32 2) =
       Inl (Error ''Failed to unwrap document encryption key'') \<and>
     decryptFromVault sample_nacl ((encryptedBlob out)[0 := encryptedBlob out ! 0 + 1])
       (encryptionMeta out) (replicate 32 1) =
       Inl (Error ''Failed to decrypt document'')"
proof -
  let ?k = "replicate 32 (1::byte)" and ?k2 = "replicate 32 (2::byte)"
  obtain out rnd' where enc:
    "encryptForVault sample_nacl [104, 105] ?k (\<lambda>i. 0) = Inr (out, rnd')"
    using encryptForVault_returns[where lib = sample_nacl and k = ?k and p = "[104, 105]"
        and rnd = "\<lambda>i. 0", OF sample_secretbox_correct]
    by auto
  from encryptForVault_parts[OF enc] obtain dek n1 n2 w where
    l: "length dek = 32" "length n1 = 24" "length n2 = 24" and
    c: "nacl_secretbox sample_nacl [104, 105] n1 dek = Inr (encryptedBlob out)" and
    w: "nacl_secretbox sample_nacl dek n2 ?k = Inr w" and
    meta: "encryptionMeta out =
       \<lparr>scheme = SCHEME_SECRETBOX, nonce = encodeBase64 sample_nacl n1,
        key_wrap = \<lparr>algorithm = ''XSalsa20-Poly1305'', wrapped_key = encodeBase64 sample_nacl w,
                    wrap_nonce = encodeBase64 sample_nacl n2\<rparr>\<rparr>"
    by blast
  have b: "\<And>x. decodeBase64 sample_nacl (encodeBase64 sample_nacl x) = Inr x"
    using sample_base64_correct by (simp add: base64_correct_def)
  have d1: "decodeBase64 sample_nacl (wrapped_key (key_wrap (encryptionMeta out))) = Inr w"
    and d2: "decodeBase64 sample_nacl (wrap_nonce (key_wrap (encryptionMeta out))) = Inr n2"
    and d3: "decodeBase64 sample_nacl (nonce (encryptionMeta out)) = Inr n1"
    by (simp_all add: meta b)
  have r1: "nacl_secretbox_open sample_nacl w n2 ?k2 = Inr None"
    by (rule sample_rejects_other_key[OF w]) simp_all
  have o1: "nacl_secretbox_open sample_nacl w n2 ?k = Inr (Some dek)"
    by (rule secretbox_correct_open[OF sample_secretbox_correct _ l(3) w]) simp
  have r2: "nacl_secretbox_open sample_nacl ((encryptedBlob out)[0 := encryptedBlob out ! 0 + 1])
      n1 dek = Inr None"
    by (rule sample_rejects_corrupted[OF c])
  have "decryptFromVault sample_nacl (encryptedBlob out) (encryptionMeta out) ?k2 =
       Inl (Error ''Failed to unwrap document encryption key'')"
    using vault_failure_messages[where lib = sample_nacl and meta = "encryptionMeta out"
        and key = ?k2 and blob = "encryptedBlob out" and wrappedDek = w and wrapNonce = n2]
      d1 d2 r1 by blast
  moreover have "decryptFromVault sample_nacl
       ((encryptedBlob out)[0 := encryptedBlob out ! 0 + 1]) (encryptionMeta out) ?k =
       Inl (Error ''Failed to decrypt document'')"
    using vault_failure_messages[where lib = sample_nacl and meta = "encryptionMeta out"
        and key = ?k and blob = "(encryptedBlob out)[0 := encryptedBlob out ! 0 + 1]"
        and wrappedDek = w and wrapNonce = n2 and dek = dek and documentNonce = n1]
      d1 d2 d3 o1 r2 by blast
  ultimately show ?thesis using enc by blast
qed

text \<open>
  C4. The claim is that the owner signature sent with a new role is an Ed25519
  signature over \<open>role:{roleType}:target:{targetDid}:time:{timestamp}\<close>.
  \<open>handleAddRole\<close> sends the base64 of a SHA-256 digest, computed without any key,
  and the string it hashes has the target's account id in the target field, not the
  target's DID.
\<close>

theorem handleAddRole_signature_is_digest:
  "owner_signature
     (handleAddRole_request sha256 btoa beneficiary
        \<lparr>account_id = ''c0ffee'', did = ''did:key:z6Mkevh7bMWWUda468bFjfFGtDxLXgkG8L46bsaXEwHD9Z3L''\<rparr>
        ''2024-01-01T00:00:00.000Z'') =
     btoa (sha256 (TextEncoder_encode ''role:beneficiary:target:c0ffee:time:2024-01-01T00:00:00.000Z'')) \<and>
   signatureData beneficiary
        \<lparr>account_id = ''c0ffee'', did = ''did:key:z6Mkevh7bMWWUda468bFjfFGtDxLXgkG8L46bsaXEwHD9Z3L''\<rparr>
        ''2024-01-01T00:00:00.000Z'' \<noteq>
     canonical_role_payload beneficiary ''did:key:z6Mkevh7bMWWUda468bFjfFGtDxLXgkG8L46bsaXEwHD9Z3L''
        ''2024-01-01T00:00:00.000Z''"
  by (simp add: handleAddRole_request_def signatureData_def canonical_role_payload_def)



text \<open>
  C6. The claim is that \<open>base58Decode(base58Encode(b))\<close> is \<open>b\<close> for every byte
  sequence, leading zero bytes included. \<open>base58Encode\<close> returns \<open>"1"\<close> as soon as the
  number is zero, before its loop over the leading zero bytes: two zero bytes are
  encoded as one \<open>1\<close> and decoded as one zero byte, and the empty sequence is decoded
  as one zero byte. (The round trip holds whenever some byte is not zero:
  \<open>base58_roundtrip_nonzero\<close>.)
\<close>

theorem base58_roundtrip_fails_on_zero_bytes:
  "base58Encode [0, 0] = ''1'' \<and> base58Decode (base58Encode [0, 0]) = Inr [0] \<and>
   base58Encode [] = ''1'' \<and> base58Decode (base58Encode []) = Inr [0]"
  by code_simp



text \<open>
  C8. The claim is that verification never throws on malformed input and returns
  false. \<open>verifySignature\<close> has no \<open>try\<close>: with a public key of 31 bytes the
  exception of \<open>nacl.sign.open\<close> reaches the caller, while \<open>verifySignatureBase64\<close>
  catches it and returns false.
\<close>

theorem verifySignature_raises_on_short_public_key:
  "verifySignature sample_nacl [] (replicate 64 0) (replicate 31 0) =
     Inl (Error ''bad public key size'') \<and>
   verifySignatureBase64 sample_nacl (Bytes []) (encodeBase64 sample_nacl (replicate 64 0))
     (replicate 31 0) = Inr False"
  by code_simp

text \<open>
  C9. The claim is that \<open>didToPublicKey\<close> fails with one of three errors. A
  character outside the base58 alphabet makes \<open>base58Decode\<close> throw a fourth one.
\<close>

theorem didToPublicKey_fourth_error:
  "didToPublicKey ''did:key:z0'' = Inl (Error ''Invalid base58 character: 0'') \<and>
   Error ''Invalid base58 character: 0'' \<noteq> InvalidDidFormat \<and>
   Error ''Invalid base58 character: 0'' \<noteq> InvalidMulticodecPrefix \<and>
   Error ''Invalid base58 character: 0'' \<noteq> InvalidKeyLength"
  by code_simp

text \<open>
  C9, as amended. \<open>didToPublicKey\<close> checks in this order: a string that does not
  start with \<open>did:key:z\<close> fails with \<open>InvalidDidFormat\<close>; a remainder with a
  character outside the base58 alphabet fails with \<open>Invalid base58 character\<close> and
  that character; otherwise the remainder decodes, and a decoded body that does not
  begin with 0xed 0x01 fails with \<open>InvalidMulticodecPrefix\<close>, one that does and is not
  34 bytes long fails with \<open>InvalidKeyLength\<close>, and one of 34 bytes returns its last
  32 bytes.
\<close>

theorem didToPublicKey_outcomes:
  "(\<not> startsWith d ''did:key:z'' \<longrightarrow> didToPublicKey d = Inl InvalidDidFormat) \<and>
   (startsWith d ''did:key:z'' \<and> \<not> set (drop 9 d) \<subseteq> set BASE58_ALPHABET \<longrightarrow>
      (\<exists>c. c \<in> set (drop 9 d) \<and> c \<notin> set BASE58_ALPHABET \<and>
           didToPublicKey d = Inl (Error (''Invalid base58 character: '' @ [c])))) \<and>
   (startsWith d ''did:key:z'' \<and> set (drop 9 d) \<subseteq> set BASE58_ALPHABET \<longrightarrow>
      (\<exists>decoded. base58Decode (drop 9 d) = Inr decoded \<and>
         didToPublicKey d =
           (if take 2 decoded \<noteq> [0xed, 0x01] then Inl InvalidMulticodecPrefix
            else if length decoded \<noteq> 34 then Inl InvalidKeyLength
            else Inr (drop 2 decoded))))"
proof (intro conjI impI)
  assume "\<not> startsWith d ''did:key:z''"
  then show "didToPublicKey d = Inl InvalidDidFormat" by (simp add: didToPublicKey_def)
next
  assume a: "startsWith d ''did:key:z'' \<and> \<not> set (drop 9 d) \<subseteq> set BASE58_ALPHABET"
  then obtain c where c: "c \<in> set (drop 9 d)" "c \<notin> set BASE58_ALPHABET"
      "base58Decode (drop 9 d) = Inl (Error (''Invalid base58 character: '' @ [c]))"
    using base58Decode_invalid[of "drop 9 d"] by blast
  then have "didToPublicKey d = Inl (Error (''Invalid base58 character: '' @ [c]))"
    using a by (simp add: didToPublicKey_def)
  with c show "\<exists>c. c \<in> set (drop 9 d) \<and> c \<notin> set BASE58_ALPHABET \<and>
           didToPublicKey d = Inl (Error (''Invalid base58 character: '' @ [c]))"
    by blast
next
  assume a: "startsWith d ''did:key:z'' \<and> set (drop 9 d) \<subseteq> set BASE58_ALPHABET"
  then obtain decoded where dec: "base58Decode (drop 9 d) = Inr decoded"
    using base58Decode_valid[of "drop 9 d"] by blast
  have "didToPublicKey d =
           (if take 2 decoded \<noteq> [0xed, 0x01] then Inl InvalidMulticodecPrefix
            else if length decoded \<noteq> 34 then Inl InvalidKeyLength
            else Inr (drop 2 decoded))"
  proof -
    have len: "(length (drop 2 decoded) \<noteq> 32) = (length decoded \<noteq> 34)" by auto
    have "didToPublicKey d =
        (if at_index decoded 0 \<noteq> at_index ED25519_MULTICODEC_PREFIX 0 \<or>
            at_index decoded 1 \<noteq> at_index ED25519_MULTICODEC_PREFIX 1
         then Inl InvalidMulticodecPrefix
         else if length (drop 2 decoded) \<noteq> 32 then Inl InvalidKeyLength
         else Inr (drop 2 decoded))"
      using a dec by (simp add: didToPublicKey_def Let_def del: length_drop)
    then show ?thesis
      by (simp only: multicodec_check len)
  qed
  with dec show "\<exists>decoded. base58Decode (drop 9 d) = Inr decoded \<and>
         didToPublicKey d =
           (if take 2 decoded \<noteq> [0xed, 0x01] then Inl InvalidMulticodecPrefix
            else if length decoded \<noteq> 34 then Inl InvalidKeyLength
            else Inr (drop 2 decoded))"
    by blast
qed

theorem didToPublicKey_outcomes_witness:
  "didToPublicKey ''did:web:abc'' = Inl InvalidDidFormat \<and>
   didToPublicKey ''did:key:z0'' = Inl (Error ''Invalid base58 character: 0'') \<and>
   didToPublicKey ''did:key:z'' = Inl InvalidMulticodecPrefix \<and>
   didToPublicKey ''did:key:zK36'' = Inl InvalidKeyLength \<and>
   didToPublicKey ''did:key:z6Mkevh7bMWWUda468bFjfFGtDxLXgkG8L46bsaXEwHD9Z3L'' =
     Inr (replicate 32 7)"
proof (intro conjI)
  have "\<not> startsWith ''did:web:abc'' ''did:key:z''" by (simp add: startsWith_def)
  then show "didToPublicKey ''did:web:abc'' = Inl InvalidDidFormat"
    using didToPublicKey_outcomes[of "''did:web:abc''"] by blast
next
  have "startsWith ''did:key:z0'' ''did:key:z'' \<and>
        \<not> set (drop 9 ''did:key:z0'') \<subseteq> set BASE58_ALPHABET"
    by (simp add: startsWith_def BASE58_ALPHABET_def)
  then obtain c where "c \<in> set (drop 9 ''did:key:z0'')"
      "didToPublicKey ''did:key:z0'' = Inl (Error (''Invalid base58 character: '' @ [c]))"
    using didToPublicKey_outcomes[of "''did:key:z0''"] by blast
  then show "didToPublicKey ''did:key:z0'' = Inl (Error ''Invalid base58 character: 0'')"
    by simp
next
  have "startsWith ''did:key:z'' ''did:key:z'' \<and>
        set (drop 9 ''did:key:z'') \<subseteq> set BASE58_ALPHABET"
    by (simp add: startsWith_def)
  then obtain decoded where "base58Decode (drop 9 ''did:key:z'') = Inr decoded"
      "didToPublicKey ''did:key:z'' =
         (if take 2 decoded \<noteq> [0xed, 0x01] then Inl InvalidMulticodecPrefix
          else if length decoded \<noteq> 34 then Inl InvalidKeyLength
          else Inr (drop 2 decoded))"
    using didToPublicKey_outcomes[of "''did:key:z''"] by blast
  then show "didToPublicKey ''did:key:z'' = Inl InvalidMulticodecPrefix"
    by (simp add: base58Decode_def)
next
  have dec: "base58Decode ''K36'' = Inr [0xed, 0x01]"
    using base58_roundtrip_nonzero[OF multicodec_data_nonzero[of "[]"]]
    by (simp only: example_short_encoding)
  have "startsWith ''did:key:zK36'' ''did:key:z'' \<and>
        set (drop 9 ''did:key:zK36'') \<subseteq> set BASE58_ALPHABET"
    by (simp add: startsWith_def BASE58_ALPHABET_def)
  then obtain decoded where "base58Decode (drop 9 ''did:key:zK36'') = Inr decoded"
      "didToPublicKey ''did:key:zK36'' =
         (if take 2 decoded \<noteq> [0xed, 0x01] then Inl InvalidMulticodecPrefix
          else if length decoded \<noteq> 34 then Inl InvalidKeyLength
          else Inr (drop 2 decoded))"
    using didToPublicKey_outcomes[of "''did:key:zK36''"] by blast
  then show "didToPublicKey ''did:key:zK36'' = Inl InvalidKeyLength"
    using dec by auto
next
  have dec: "base58Decode ''6Mkevh7bMWWUda468bFjfFGtDxLXgkG8L46bsaXEwHD9Z3L'' =
      Inr (0xed # 0x01 # replicate 32 7)"
    using base58_roundtrip_nonzero[OF multicodec_data_nonzero[of "replicate 32 7"]]
    by (simp only: example_did_encoding)
  have "startsWith ''did:key:z6Mkevh7bMWWUda468bFjfFGtDxLXgkG8L46bsaXEwHD9Z3L'' ''did:key:z'' \<and>
        set (drop 9 ''did:key:z6Mkevh7bMWWUda468bFjfFGtDxLXgkG8L46bsaXEwHD9Z3L'')
          \<subseteq> set BASE58_ALPHABET"
    by (simp add: startsWith_def BASE58_ALPHABET_def)
  then obtain decoded where
      "base58Decode (drop 9 ''did:key:z6Mkevh7bMWWUda468bFjfFGtDxLXgkG8L46bsaXEwHD9Z3L'') =
         Inr decoded"
      "didToPublicKey ''did:key:z6Mkevh7bMWWUda468bFjfFGtDxLXgkG8L46bsaXEwHD9Z3L'' =
         (if take 2 decoded \<noteq> [0xed, 0x01] then Inl InvalidMulticodecPrefix
          else if length decoded \<noteq> 34 then Inl InvalidKeyLength
          else Inr (drop 2 decoded))"
    using didToPublicKey_outcomes[of "''did:key:z6Mkevh7bMWWUda468bFjfFGtDxLXgkG8L46bsaXEwHD9Z3L''"]
    by blast
  then show "didToPublicKey ''did:key:z6Mkevh7bMWWUda468bFjfFGtDxLXgkG8L46bsaXEwHD9Z3L'' =
     Inr (replicate 32 7)"
    using dec by auto
qed

text \<open>
  C10. Every failure of \<open>decryptSymmetric\<close> reaches the caller as a
  \<open>DecryptionError\<close>, for every library. An exception thrown by \<open>decodeBase64\<close> on
  the ciphertext or on the nonce, or by \<open>nacl.secretbox.open\<close>, is reported as a
  \<open>DecryptionError\<close> (with the message \<open>Decryption error: ...\<close> when it is an
  \<open>Error\<close> or a \<open>TypeError\<close>); a box that \<open>nacl.secretbox.open\<close> rejects is
  reported as \<open>DecryptionError('Decryption failed: incorrect key or corrupted data')\<close>;
  a box that it opens is returned; and nothing but a \<open>DecryptionError\<close> is thrown.
\<close>

theorem decryptSymmetric_failures:
  "(decodeBase64 lib (payload_ciphertext payload) = Inl e \<or>
    (\<exists>c. decodeBase64 lib (payload_ciphertext payload) = Inr c \<and>
         decodeBase64 lib (payload_nonce payload) = Inl e) \<or>
    (\<exists>c n. decodeBase64 lib (payload_ciphertext payload) = Inr c \<and>
           decodeBase64 lib (payload_nonce payload) = Inr n \<and>
           nacl_secretbox_open lib c n key = Inl e) \<longrightarrow>
      (\<exists>msg. decryptSymmetric lib payload key = Inl (DecryptionError msg)) \<and>
      (\<forall>m. e = TypeError m \<or> e = Error m \<longrightarrow>
           decryptSymmetric lib payload key = Inl (DecryptionError (''Decryption error: '' @ m)))) \<and>
   (decodeBase64 lib (payload_ciphertext payload) = Inr c \<and>
    decodeBase64 lib (payload_nonce payload) = Inr n \<and>
    nacl_secretbox_open lib c n key = Inr None \<longrightarrow>
      decryptSymmetric lib payload key =
        Inl (DecryptionError ''Decryption failed: incorrect key or corrupted data'')) \<and>
   (decodeBase64 lib (payload_ciphertext payload) = Inr c \<and>
    decodeBase64 lib (payload_nonce payload) = Inr n \<and>
    nacl_secretbox_open lib c n key = Inr (Some decrypted) \<longrightarrow>
      decryptSymmetric lib payload key = Inr decrypted) \<and>
   ((\<exists>d. decryptSymmetric lib payload key = Inr d) \<or>
    (\<exists>msg. decryptSymmetric lib payload key = Inl (DecryptionError msg)))"
proof (intro conjI impI)
  assume "decodeBase64 lib (payload_ciphertext payload) = Inl e \<or>
    (\<exists>c. decodeBase64 lib (payload_ciphertext payload) = Inr c \<and>
         decodeBase64 lib (payload_nonce payload) = Inl e) \<or>
    (\<exists>c n. decodeBase64 lib (payload_ciphertext payload) = Inr c \<and>
           decodeBase64 lib (payload_nonce payload) = Inr n \<and>
           nacl_secretbox_open lib c n key = Inl e)"
  then have t: "decryptSymmetric_try lib payload key = Inl e"
    by (auto simp: decryptSymmetric_try_def)
  from decryptSymmetric_wraps[OF t]
  show "\<exists>msg. decryptSymmetric lib payload key = Inl (DecryptionError msg)"
    and "\<forall>m. e = TypeError m \<or> e = Error m \<longrightarrow>
           decryptSymmetric lib payload key = Inl (DecryptionError (''Decryption error: '' @ m))"
    by blast+
next
  assume "decodeBase64 lib (payload_ciphertext payload) = Inr c \<and>
    decodeBase64 lib (payload_nonce payload) = Inr n \<and>
    nacl_secretbox_open lib c n key = Inr None"
  then show "decryptSymmetric lib payload key =
        Inl (DecryptionError ''Decryption failed: incorrect key or corrupted data'')"
    by (simp add: decryptSymmetric_def decryptSymmetric_try_def)
next
  assume "decodeBase64 lib (payload_ciphertext payload) = Inr c \<and>
    decodeBase64 lib (payload_nonce payload) = Inr n \<and>
    nacl_secretbox_open lib c n key = Inr (Some decrypted)"
  then show "decryptSymmetric lib payload key = Inr decrypted"
    by (simp add: decryptSymmetric_def decryptSymmetric_try_def)
next
  show "(\<exists>d. decryptSymmetric lib payload key = Inr d) \<or>
    (\<exists>msg. decryptSymmetric lib payload key = Inl (DecryptionError msg))"
  proof (cases "decryptSymmetric_try lib payload key")
    case (Inl error)
    then show ?thesis using decryptSymmetric_wraps by blast
  next
    case (Inr d)
    then show ?thesis by (simp add: decryptSymmetric_def)
  qed
qed

text \<open>
  Malformed base64 in the ciphertext and in the nonce, a key of 31 bytes, an empty
  box, and a box that opens.
\<close>

theorem decryptSymmetric_failures_witness:
  "decryptSymmetric sample_nacl
     \<lparr>payload_ciphertext = ''!!'', payload_nonce = ''AAAAAAAAAAAAAAAAAAAAAAAAAAAAAAAA'',
      payload_scheme = SCHEME_SECRETBOX\<rparr> (replicate 32 0) =
     Inl (DecryptionError ''Decryption error: invalid encoding'') \<and>
   decryptSymmetric sample_nacl
     \<lparr>payload_ciphertext = '''', payload_nonce = ''!!'',
      payload_scheme = SCHEME_SECRETBOX\<rparr> (replicate 32 0) =
     Inl (DecryptionError ''Decryption error: invalid encoding'') \<and>
   decryptSymmetric sample_nacl
     \<lparr>payload_ciphertext = '''', payload_nonce = ''AAAAAAAAAAAAAAAAAAAAAAAAAAAAAAAA'',
      payload_scheme = SCHEME_SECRETBOX\<rparr> (replicate 31 0) =
     Inl (DecryptionError ''Decryption error: bad key size'') \<and>
   decryptSymmetric sample_nacl
     \<lparr>payload_ciphertext = '''', payload_nonce = ''AAAAAAAAAAAAAAAAAAAAAAAAAAAAAAAA'',
      payload_scheme = SCHEME_SECRETBOX\<rparr> (replicate 32 0) =
     Inl (DecryptionError ''Decryption failed: incorrect key or corrupted data'') \<and>
   (\<exists>box. nacl_secretbox sample_nacl [104, 105] (replicate 24 0) (replicate 32 0) = Inr box \<and>
      decryptSymmetric sample_nacl
        \<lparr>payload_ciphertext = encodeBase64 sample_nacl box,
         payload_nonce = encodeBase64 sample_nacl (replicate 24 0),
         payload_scheme = SCHEME_SECRETBOX\<rparr> (replicate 32 0) = Inr [104, 105])"
proof (intro conjI)
  let ?n = "''AAAAAAAAAAAAAAAAAAAAAAAAAAAAAAAA''"
  show "decryptSymmetric sample_nacl
     \<lparr>payload_ciphertext = ''!!'', payload_nonce = ?n, payload_scheme = SCHEME_SECRETBOX\<rparr>
     (replicate 32 0) = Inl (DecryptionError ''Decryption error: invalid encoding'')"
    using decryptSymmetric_failures[where lib = sample_nacl and key = "replicate 32 0"
        and payload = "\<lparr>payload_ciphertext = ''!!'', payload_nonce = ?n,
                        payload_scheme = SCHEME_SECRETBOX\<rparr>"
        and e = "TypeError ''invalid encoding''"]
      sample_base64_values
    by simp
  show "decryptSymmetric sample_nacl
     \<lparr>payload_ciphertext = '''', payload_nonce = ''!!'', payload_scheme = SCHEME_SECRETBOX\<rparr>
     (replicate 32 0) = Inl (DecryptionError ''Decryption error: invalid encoding'')"
    using decryptSymmetric_failures[where lib = sample_nacl and key = "replicate 32 0"
        and payload = "\<lparr>payload_ciphertext = '''', payload_nonce = ''!!'',
                        payload_scheme = SCHEME_SECRETBOX\<rparr>"
        and e = "TypeError ''invalid encoding''"]
      sample_base64_values
    by simp
  show "decryptSymmetric sample_nacl
     \<lparr>payload_ciphertext = '''', payload_nonce = ?n, payload_scheme = SCHEME_SECRETBOX\<rparr>
     (replicate 31 0) = Inl (DecryptionError ''Decryption error: bad key size'')"
    using decryptSymmetric_failures[where lib = sample_nacl and key = "replicate 31 0"
        and payload = "\<lparr>payload_ciphertext = '''', payload_nonce = ?n,
                        payload_scheme = SCHEME_SECRETBOX\<rparr>"
        and e = "Error ''bad key size''"]
      sample_base64_values sample_open_values
    by simp
  show "decryptSymmetric sample_nacl
     \<lparr>payload_ciphertext = '''', payload_nonce = ?n, payload_scheme = SCHEME_SECRETBOX\<rparr>
     (replicate 32 0) = Inl (DecryptionError ''Decryption failed: incorrect key or corrupted data'')"
    using decryptSymmetric_failures[where lib = sample_nacl and key = "replicate 32 0"
        and payload = "\<lparr>payload_ciphertext = '''', payload_nonce = ?n,
                        payload_scheme = SCHEME_SECRETBOX\<rparr>"
        and c = "[]" and n = "replicate 24 0"]
      sample_base64_values sample_open_values
    by simp
  have "length (replicate 32 (0::byte)) = 32 \<and> length (replicate 24 (0::byte)) = 24" by simp
  then obtain box where box:
    "nacl_secretbox sample_nacl [104, 105] (replicate 24 0) (replicate 32 0) = Inr box"
    "nacl_secretbox_open sample_nacl box (replicate 24 0) (replicate 32 0) = Inr (Some [104, 105])"
    using sample_secretbox_correct unfolding secretbox_correct_def by blast
  have b: "\<And>x. decodeBase64 sample_nacl (encodeBase64 sample_nacl x) = Inr x"
    using sample_base64_correct by (simp add: base64_correct_def)
  have "decryptSymmetric sample_nacl
        \<lparr>payload_ciphertext = encodeBase64 sample_nacl box,
         payload_nonce = encodeBase64 sample_nacl (replicate 24 0),
         payload_scheme = SCHEME_SECRETBOX\<rparr> (replicate 32 0) = Inr [104, 105]"
    using decryptSymmetric_failures[where lib = sample_nacl and key = "replicate 32 0"
        and payload = "\<lparr>payload_ciphertext = encodeBase64 sample_nacl box,
         payload_nonce = encodeBase64 sample_nacl (replicate 24 0),
         payload_scheme = SCHEME_SECRETBOX\<rparr>"
        and c = box and n = "replicate 24 0" and decrypted = "[104, 105]"]
      b box
    by simp
  with box show "\<exists>box. nacl_secretbox sample_nacl [104, 105] (replicate 24 0) (replicate 32 0) = Inr box \<and>
      decryptSymmetric sample_nacl
        \<lparr>payload_ciphertext = encodeBase64 sample_nacl box,
         payload_nonce = encodeBase64 sample_nacl (replicate 24 0),
         payload_scheme = SCHEME_SECRETBOX\<rparr> (replicate 32 0) = Inr [104, 105]"
    by blast
qed

end
